theory Spec2Isabelle
  imports Main "HOL-Library.Sublist"
begin

section \<open>JavaScript values used by the two page components\<close>

text \<open>
  The source is one file, \<^verbatim>\<open>src/app/dashboard/teacher/assignmentsubmission/page.tsx\<close>,
  holding two React client components: \<^verbatim>\<open>AssignmentSubmissionsClient\<close> (the review and
  grading screen) and \<^verbatim>\<open>AssignmentSubmitClient\<close> (the assignment-taking screen).

  Modelling conventions.
  \<^item> A JavaScript \<^verbatim>\<open>number\<close> is an \<^typ>\<open>int\<close>: the components only copy, compare and print
    the numbers they handle (scores, order indexes, HTTP status codes, page numbers).
  \<^item> A string is a \<^typ>\<open>string\<close> of ASCII characters.
  \<^item> An optional or nullable field (\<^verbatim>\<open>x?: T\<close>, \<^verbatim>\<open>T | null\<close>) is a \<^typ>\<open>'a option\<close>; the code
    reads such fields through \<^verbatim>\<open>??\<close> and \<^verbatim>\<open>?.\<close>, which treat \<^verbatim>\<open>null\<close> and \<^verbatim>\<open>undefined\<close> alike.
  \<^item> React state is a record; a handler is a function from the state (and what the
    environment answers: a fetch result, the content of local storage) to the next state.
\<close>

subsection \<open>Strings\<close>

definition isWhiteSpace :: "char \<Rightarrow> bool" where
  "isWhiteSpace c = (c \<in> set [CHR '' '', CHR 0x09, CHR 0x0A, CHR 0x0B, CHR 0x0C, CHR 0x0D])"

text \<open>\<^verbatim>\<open>String.prototype.trim\<close>: white space removed at both ends.\<close>

definition trim :: "string \<Rightarrow> string" where
  "trim s = rev (dropWhile isWhiteSpace (rev (dropWhile isWhiteSpace s)))"

definition toLowerCase_char :: "char \<Rightarrow> char" where
  "toLowerCase_char c =
     (let n = (of_char c :: nat) in if 65 \<le> n \<and> n \<le> 90 then char_of (n + 32) else c)"

definition toLowerCase :: "string \<Rightarrow> string" where
  "toLowerCase s = map toLowerCase_char s"

fun startsWith :: "string \<Rightarrow> string \<Rightarrow> bool" where
  "startsWith s [] = True"
| "startsWith [] (c # q) = False"
| "startsWith (d # s) (c # q) = (d = c \<and> startsWith s q)"

text \<open>\<^verbatim>\<open>String.prototype.includes\<close>: \<open>q\<close> occurs in \<open>s\<close> as a contiguous substring.\<close>

fun includes' :: "string \<Rightarrow> string \<Rightarrow> bool" where
  "includes' [] q = (q = [])"
| "includes' (c # s) q = (startsWith (c # s) q \<or> includes' s q)"

definition digit :: "nat \<Rightarrow> char" where
  "digit d = char_of (48 + d)"

fun digits :: "nat \<Rightarrow> string" where
  "digits n = (if n < 10 then [digit n] else digits (n div 10) @ [digit (n mod 10)])"

declare digits.simps [simp del]

text \<open>\<^verbatim>\<open>Number.prototype.toString\<close> on an integer: its decimal numeral.\<close>

definition toString :: "int \<Rightarrow> string" where
  "toString n = (if n < 0 then CHR ''-'' # digits (nat (- n)) else digits (nat n))"

text \<open>\<^verbatim>\<open>a || b\<close> on strings that may be absent: the empty string is falsy.\<close>

definition or_else :: "string option \<Rightarrow> string \<Rightarrow> string" where
  "or_else a b = (case a of None \<Rightarrow> b | Some s \<Rightarrow> if s = [] then b else s)"

text \<open>
  \<^verbatim>\<open>Array.prototype.slice(start, end)\<close>: a negative index counts from the end, and both
  indexes are clamped to the array.
\<close>

definition slice :: "'a list \<Rightarrow> int \<Rightarrow> int \<Rightarrow> 'a list" where
  "slice xs start fin =
     (let len = int (length xs);
          k = (if start < 0 then max (len + start) 0 else min start len);
          final = (if fin < 0 then max (len + fin) 0 else min fin len)
      in take (nat (final - k)) (drop (nat k) xs))"

subsection \<open>JSON\<close>

datatype json =
    JNull
  | JBool bool
  | JNum int
  | JStr string
  | JArr "json list"
  | JObj "(string \<times> json) list"

text \<open>
  An object literal handed to \<^verbatim>\<open>JSON.stringify\<close>: a property whose value is
  \<^verbatim>\<open>undefined\<close> is left out of the text.
\<close>

definition js_object :: "(string \<times> json option) list \<Rightarrow> json" where
  "js_object fields = JObj (List.map_filter (\<lambda>(k, v). map_option (Pair k) v) fields)"

text \<open>Property access \<^verbatim>\<open>j?.k\<close>: only an object has properties of its own.\<close>

fun get_prop :: "json \<Rightarrow> string \<Rightarrow> json option" where
  "get_prop (JObj fields) k = map_of fields k"
| "get_prop _ k = None"

fun truthy :: "json \<Rightarrow> bool" where
  "truthy JNull = False"
| "truthy (JBool b) = b"
| "truthy (JNum n) = (n \<noteq> 0)"
| "truthy (JStr s) = (s \<noteq> [])"
| "truthy (JArr xs) = True"
| "truthy (JObj fields) = True"

text \<open>
  \<^verbatim>\<open>json?.message\<close>, read at its declared type \<^verbatim>\<open>message?: string\<close>.
\<close>

definition message_of :: "json \<Rightarrow> string option" where
  "message_of j = (case get_prop j ''message'' of Some (JStr m) \<Rightarrow> Some m | _ \<Rightarrow> None)"

subsection \<open>The answer of \<^verbatim>\<open>fetch\<close>\<close>

text \<open>
  \<^verbatim>\<open>fetch\<close> either rejects (a network failure, an \<^verbatim>\<open>Error\<close> with a message) or resolves
  to a response. \<open>res_json\<close> is what \<^verbatim>\<open>res.json()\<close> resolves to, \<open>None\<close> when the body is
  not JSON and \<^verbatim>\<open>res.json()\<close> rejects.
\<close>

record Response =
  res_ok :: bool
  res_status :: int
  res_json :: "json option"

datatype fetch_result = Rejected string | Resolved Response

text \<open>\<^verbatim>\<open>await res.json().catch(() => ({}))\<close>\<close>

definition json_or_empty :: "Response \<Rightarrow> json" where
  "json_or_empty res = (case res_json res of None \<Rightarrow> JObj [] | Some j \<Rightarrow> j)"

section \<open>The review component: \<^verbatim>\<open>AssignmentSubmissionsClient\<close>\<close>

datatype answer = AStr string | AArr "string list"

record AnswerEntry =
  questionId :: string
  answer :: answer

record StudentRef =
  student_id :: string
  firstName :: "string option"
  lastName :: "string option"
  email :: "string option"
  avatar :: "string option"

record Submission =
  sub_id :: string
  sub_assignmentId :: "string option"
  studentId :: "StudentRef option"
  status :: string
  score :: "int option"
  attemptNumber :: int
  submittedAt :: string
  sub_answers :: "AnswerEntry list option"
  timeSpent :: "int option"

record Grading =
  g_score :: "int option"
  g_feedback :: "string option"

definition PAGE_SIZE :: int where
  "PAGE_SIZE = 12"

record ReviewState =
  loading :: bool
  error :: "string option"
  submissions :: "Submission list"
  selected :: "Submission option"
  grading :: "Grading option"
  savingGrade :: bool
  filterStatus :: string
  search :: string
  page :: int

text \<open>The predicate of the second \<^verbatim>\<open>filter\<close> of \<^verbatim>\<open>filteredList\<close>, for the query \<open>q\<close>.\<close>

definition search_hit :: "string \<Rightarrow> Submission \<Rightarrow> bool" where
  "search_hit q s =
     (let name = (case studentId s of
                    None \<Rightarrow> []
                  | Some st \<Rightarrow>
                      toLowerCase (trim (case_option [] id (firstName st) @ '' '' @
                                         case_option [] id (lastName st))));
          email = (case studentId s of
                     None \<Rightarrow> []
                   | Some st \<Rightarrow> (case email st of None \<Rightarrow> [] | Some e \<Rightarrow> toLowerCase e));
          aid = toLowerCase (case_option [] id (sub_assignmentId s))
      in includes' name q \<or> includes' email q \<or> includes' aid q)"

text \<open>
  \<^verbatim>\<open>filteredList\<close> reads \<open>submissions\<close>, \<open>filterStatus\<close> and \<open>search\<close> from the state; here
  they are its arguments.
\<close>

definition filteredList :: "Submission list \<Rightarrow> string \<Rightarrow> string \<Rightarrow> Submission list" where
  "filteredList subs fStatus srch =
     (let list = subs;
          list = (if fStatus \<noteq> ''ALL'' then filter (\<lambda>s. status s = fStatus) list else list);
          list = (if trim srch \<noteq> []
                  then (let q = toLowerCase (trim srch) in filter (search_hit q) list)
                  else list)
      in list)"

definition totalFiltered :: "ReviewState \<Rightarrow> int" where
  "totalFiltered st = int (length (filteredList (submissions st) (filterStatus st) (search st)))"

text \<open>
  \<^verbatim>\<open>Math.max(1, Math.ceil(totalFiltered / PAGE_SIZE))\<close>; the ceiling of the quotient of two
  non-negative integers is written with integer division.
\<close>

definition totalPages :: "ReviewState \<Rightarrow> int" where
  "totalPages st = max 1 ((totalFiltered st + PAGE_SIZE - 1) div PAGE_SIZE)"

definition pageItems :: "ReviewState \<Rightarrow> Submission list" where
  "pageItems st =
     (let list = filteredList (submissions st) (filterStatus st) (search st);
          start = (page st - 1) * PAGE_SIZE
      in slice list start (start + PAGE_SIZE))"

text \<open>
  A request as \<^verbatim>\<open>fetch\<close> sends it; \<open>req_body\<close> is the value handed to
  \<^verbatim>\<open>JSON.stringify\<close> for the body.
\<close>

record Request =
  req_url :: string
  req_method :: string
  req_body :: json

definition openDetail :: "Submission \<Rightarrow> ReviewState \<Rightarrow> ReviewState" where
  "openDetail sub st =
     st\<lparr>selected := Some sub, grading := Some \<lparr>g_score = score sub, g_feedback = None\<rparr>\<rparr>"

definition closeDetail :: "ReviewState \<Rightarrow> ReviewState" where
  "closeDetail st = st\<lparr>selected := None, grading := None\<rparr>"

text \<open>
  \<^verbatim>\<open>onChangeScore\<close>: the empty input gives \<^verbatim>\<open>undefined\<close>, any other text goes through
  \<^verbatim>\<open>Number\<close>, the platform's conversion, which is a parameter here.
\<close>

definition onChangeScore :: "(string \<Rightarrow> int) \<Rightarrow> string \<Rightarrow> ReviewState \<Rightarrow> ReviewState" where
  "onChangeScore Number v st =
     (let n = (if v = [] then None else Some (Number v));
          g = (case grading st of None \<Rightarrow> \<lparr>g_score = None, g_feedback = None\<rparr> | Some g \<Rightarrow> g)
      in st\<lparr>grading := Some (g\<lparr>g_score := n\<rparr>)\<rparr>)"

definition onChangeFeedback :: "string \<Rightarrow> ReviewState \<Rightarrow> ReviewState" where
  "onChangeFeedback v st =
     (let g = (case grading st of None \<Rightarrow> \<lparr>g_score = None, g_feedback = None\<rparr> | Some g \<Rightarrow> g)
      in st\<lparr>grading := Some (g\<lparr>g_feedback := Some v\<rparr>)\<rparr>)"

text \<open>
  The object spread of \<^verbatim>\<open>saveGrade\<close>:
  \<^verbatim>\<open>{ ...p, score: grading.score ?? p.score, status: "GRADED" }\<close>.
\<close>

definition graded :: "Grading \<Rightarrow> Submission \<Rightarrow> Submission" where
  "graded g p =
     p\<lparr>score := (case g_score g of Some n \<Rightarrow> Some n | None \<Rightarrow> score p), status := ''GRADED''\<rparr>"

definition grade_request :: "Submission \<Rightarrow> Grading \<Rightarrow> Request" where
  "grade_request sel g =
     \<lparr>req_url = ''/api/submissions/'' @ sub_id sel,
      req_method = ''PUT'',
      req_body = js_object
        [(''score'', map_option JNum (g_score g)),
         (''status'', Some (JStr ''GRADED'')),
         (''feedback'', map_option JStr (g_feedback g))]\<rparr>"

text \<open>
  The \<^verbatim>\<open>try\<close> block of \<^verbatim>\<open>saveGrade\<close> once \<^verbatim>\<open>fetch\<close> has answered: \<open>Inl\<close> is the message of
  the error thrown, \<open>Inr\<close> the state after the three updates
  \<^verbatim>\<open>setSubmissions\<close>, \<^verbatim>\<open>setSelected\<close> and \<^verbatim>\<open>closeDetail\<close>, applied in that order.
\<close>

definition saveGrade_try ::
    "Submission \<Rightarrow> Grading \<Rightarrow> fetch_result \<Rightarrow> ReviewState \<Rightarrow> string + ReviewState" where
  "saveGrade_try sel g fr st =
     (case fr of
        Rejected msg \<Rightarrow> Inl msg
      | Resolved res \<Rightarrow>
          (let json = json_or_empty res in
           if \<not> res_ok res
           then Inl (or_else (message_of json)
                       (''Failed to save ('' @ toString (res_status res) @ '')''))
           else
             (let st1 = st\<lparr>submissions :=
                           map (\<lambda>p. if sub_id p = sub_id sel then graded g p else p)
                               (submissions st)\<rparr>;
                  st2 = st1\<lparr>selected := map_option (graded g) (selected st1)\<rparr>
              in Inr (closeDetail st2))))"

text \<open>
  \<^verbatim>\<open>saveGrade\<close>: the request sent (none on the two early returns) and the state once the
  handler has finished.
\<close>

definition saveGrade :: "fetch_result \<Rightarrow> ReviewState \<Rightarrow> Request option \<times> ReviewState" where
  "saveGrade fr st =
     (case selected st of
        None \<Rightarrow> (None, st)
      | Some sel \<Rightarrow>
          (case grading st of
             None \<Rightarrow> (None, st)
           | Some g \<Rightarrow>
               (let st0 = st\<lparr>savingGrade := True\<rparr>;
                    st' = (case saveGrade_try sel g fr st0 of
                             Inl msg \<Rightarrow> st0\<lparr>error := Some msg\<rparr>
                           | Inr st1 \<Rightarrow> st1)
                in (Some (grade_request sel g), st'\<lparr>savingGrade := False\<rparr>))))"

section \<open>The assignment-taking component: \<^verbatim>\<open>AssignmentSubmitClient\<close>\<close>

subsection \<open>Types\<close>

datatype question_type = MULTIPLE_CHOICE | TRUE_FALSE | SHORT_ANSWER | ESSAY

record Question =
  question :: string
  qtype :: question_type
  options :: "string list option"
  correctAnswer :: "answer option"
  points :: int
  order :: "int option"

record Assignment =
  a_id :: string
  title :: string
  description :: "string option"
  a_type :: "string option"
  instructions :: "string option"
  a_status :: string
  totalPoints :: "int option"
  passingScore :: "int option"
  dueDate :: "string option"
  allowLateSubmission :: "bool option"
  latePenalty :: "int option"
  maxAttempts :: "int option"
  timeLimit :: "int option"
  a_courseId :: "(string \<times> string option) option"
  questions :: "Question list option"

datatype alert_type = success | danger | info

text \<open>
  The state of the component: its \<^verbatim>\<open>useState\<close> cells and its refs. \<open>result\<close> holds the
  payload of the submit response as it came; \<open>timerRef\<close> holds the handle of the running
  interval, and since \<^verbatim>\<open>window.setInterval\<close> returns positive handles (numbered here from
  \<open>0\<close>), the test \<^verbatim>\<open>if (timerRef.current)\<close> is the test against \<^verbatim>\<open>null\<close>.
\<close>

record SubmitState =
  assignmentId :: "string option"
  assignment :: "Assignment option"
  s_loading :: bool
  s_error :: "string option"
  answers :: "AnswerEntry list"
  submitting :: bool
  result :: "json option"
  alert :: "(alert_type \<times> string) option"
  startedAtRef :: int
  timerRef :: "nat option"
  timeSpentSec :: int

text \<open>
  \<^verbatim>\<open>localStorage\<close> maps keys to strings. \<^verbatim>\<open>JSON.parse\<close> and \<^verbatim>\<open>JSON.stringify\<close> belong to the
  platform: the functions below take them as the parameters \<open>parse\<close> (\<open>None\<close> when
  \<^verbatim>\<open>JSON.parse\<close> throws) and \<open>stringify\<close>.
\<close>

type_synonym storage = "string \<rightharpoonup> string"

definition getItem :: "storage \<Rightarrow> string \<Rightarrow> string option" where
  "getItem ls k = ls k"

text \<open>
  \<^verbatim>\<open>localStorage.removeItem\<close> throws when storage is disabled; \<open>thrown\<close> is the message of
  the error this call throws, \<open>None\<close> when it throws none.
\<close>

definition removeItem :: "string option \<Rightarrow> storage \<Rightarrow> string \<Rightarrow> string + storage" where
  "removeItem thrown ls k = (case thrown of Some msg \<Rightarrow> Inl msg | None \<Rightarrow> Inr (ls(k := None)))"

text \<open>
  \<^verbatim>\<open>localStorage.setItem\<close> throws when the quota is exceeded or storage is disabled;
  \<open>throws\<close> says whether this call does.
\<close>

definition setItem :: "bool \<Rightarrow> storage \<Rightarrow> string \<Rightarrow> string \<Rightarrow> storage option" where
  "setItem throws ls k v = (if throws then None else Some (ls(k \<mapsto> v)))"

text \<open>A string state cell tested for truth: \<^verbatim>\<open>null\<close> and the empty string are falsy.\<close>

definition truthy_id :: "string option \<Rightarrow> bool" where
  "truthy_id x = (case x of None \<Rightarrow> False | Some s \<Rightarrow> s \<noteq> [])"

definition LOCAL_STORAGE_KEY :: "string option \<Rightarrow> string" where
  "LOCAL_STORAGE_KEY aid =
     (if truthy_id aid then ''assignment_draft_'' @ the aid else ''assignment_draft_unknown'')"

subsection \<open>Answers as JSON\<close>

fun answer_json :: "answer \<Rightarrow> json" where
  "answer_json (AStr s) = JStr s"
| "answer_json (AArr xs) = JArr (map JStr xs)"

definition entry_json :: "AnswerEntry \<Rightarrow> json" where
  "entry_json e =
     js_object [(''questionId'', Some (JStr (questionId e))),
                (''answer'', Some (answer_json (answer e)))]"

text \<open>The object \<^verbatim>\<open>{ answers }\<close> that the autosave effect serialises.\<close>

definition draft_json :: "AnswerEntry list \<Rightarrow> json" where
  "draft_json xs = js_object [(''answers'', Some (JArr (map entry_json xs)))]"

text \<open>
  The cast \<^verbatim>\<open>draft.answers as AnswerEntry[]\<close> is unchecked: whatever array the draft holds
  becomes the content of the \<open>answers\<close> cell. The array is an \<^verbatim>\<open>AnswerEntry[]\<close> when each of
  its elements is exactly the object of an entry, \<^verbatim>\<open>{questionId, answer}\<close> with a string and
  a string or an array of strings, as the component writes them; \<open>as_AnswerEntries\<close> then
  gives the entries, and \<open>None\<close> on any other array.
\<close>

fun as_string :: "json \<Rightarrow> string option" where
  "as_string (JStr s) = Some s"
| "as_string _ = None"

fun as_answer :: "json \<Rightarrow> answer option" where
  "as_answer (JStr s) = Some (AStr s)"
| "as_answer (JArr xs) = map_option AArr (those (map as_string xs))"
| "as_answer _ = None"

definition as_AnswerEntry :: "json \<Rightarrow> AnswerEntry option" where
  "as_AnswerEntry j =
     (case (get_prop j ''questionId'', get_prop j ''answer'') of
        (Some (JStr q), Some a) \<Rightarrow>
          (case as_answer a of
             Some v \<Rightarrow>
               if entry_json \<lparr>questionId = q, answer = v\<rparr> = j
               then Some \<lparr>questionId = q, answer = v\<rparr>
               else None
           | None \<Rightarrow> None)
      | _ \<Rightarrow> None)"

definition as_AnswerEntries :: "json list \<Rightarrow> AnswerEntry list option" where
  "as_AnswerEntries js = those (map as_AnswerEntry js)"

subsection \<open>Loading the assignment and its draft\<close>

text \<open>
  The draft read of the load effect:
  \<^verbatim>\<open>try { const raw = localStorage.getItem(KEY); return raw ? JSON.parse(raw) : null } catch { return null }\<close>
\<close>

definition read_draft :: "(string \<Rightarrow> json option) \<Rightarrow> storage \<Rightarrow> string \<Rightarrow> json" where
  "read_draft parse ls key =
     (case getItem ls key of
        None \<Rightarrow> JNull
      | Some raw \<Rightarrow>
          if raw = [] then JNull
          else (case parse raw of None \<Rightarrow> JNull | Some j \<Rightarrow> j))"

text \<open>\<^verbatim>\<open>((q.order ?? i) as number).toString()\<close>\<close>

definition question_id :: "Question \<Rightarrow> nat \<Rightarrow> string" where
  "question_id q i = toString (case order q of Some n \<Rightarrow> n | None \<Rightarrow> int i)"

text \<open>\<^verbatim>\<open>Array.isArray(q.correctAnswer) ? [] : ''\<close>\<close>

definition empty_answer :: "Question \<Rightarrow> answer" where
  "empty_answer q = (case correctAnswer q of Some (AArr c) \<Rightarrow> AArr [] | _ \<Rightarrow> AStr [])"

definition initial_answers :: "Assignment \<Rightarrow> AnswerEntry list" where
  "initial_answers a =
     map (\<lambda>(i, q). \<lparr>questionId = question_id q i, answer = empty_answer q\<rparr>)
         (enumerate 0 (case questions a of None \<Rightarrow> [] | Some qs \<Rightarrow> qs))"

text \<open>
  The content of the \<open>answers\<close> cell after a load: \<open>Inr es\<close> when it is the
  \<^verbatim>\<open>AnswerEntry[]\<close> \<open>es\<close>, \<open>Inl js\<close> when it is the array \<open>js\<close> of a cached draft that is no
  \<^verbatim>\<open>AnswerEntry[]\<close> and that the cell holds as it came. \<open>cell_json\<close> is the content as JSON
  in both cases.
\<close>

type_synonym answers_cell = "json list + AnswerEntry list"

fun cell_json :: "answers_cell \<Rightarrow> json list" where
  "cell_json (Inl js) = js"
| "cell_json (Inr es) = map entry_json es"

text \<open>
  Lines 566 to 574: the answers after the load, for the draft read, the fetched assignment
  \<open>a\<close> and the answers held before. An array in the draft is adopted whatever it holds.
\<close>

definition restore_or_init ::
    "json \<Rightarrow> Assignment option \<Rightarrow> AnswerEntry list \<Rightarrow> answers_cell" where
  "restore_or_init draft a prev =
     (case (if truthy draft then get_prop draft ''answers'' else None) of
        Some (JArr js) \<Rightarrow>
          (case as_AnswerEntries js of
             Some es \<Rightarrow> Inr es
           | None \<Rightarrow> Inl js)
      | _ \<Rightarrow> (case a of Some a' \<Rightarrow> Inr (initial_answers a') | None \<Rightarrow> Inr prev))"

text \<open>
  What the \<^verbatim>\<open>GET /api/assignments/{id}\<close> of the load effect came to (lines 546 to 553):
  \<open>Load_failed msg\<close> when an error with message \<open>msg\<close> was thrown (\<^verbatim>\<open>fetch\<close> rejected, the
  status was not ok, or the body was not JSON), \<open>Loaded a\<close> with the payload
  \<^verbatim>\<open>(json && json.data) || json\<close> at its declared type \<^verbatim>\<open>Assignment\<close>, \<open>None\<close> for \<^verbatim>\<open>null\<close>.
\<close>

datatype load_result = Load_failed string | Loaded "Assignment option"

text \<open>
  The load effect, for a component that stays mounted: \<open>now\<close> is \<^verbatim>\<open>Date.now()\<close> and \<open>h\<close> the
  handle that \<^verbatim>\<open>window.setInterval\<close> returns. The result is the state after the effect:
  \<open>Inr st'\<close> when the \<open>answers\<close> cell holds an \<^verbatim>\<open>AnswerEntry[]\<close>, which is then \<open>answers st'\<close>,
  and \<open>Inl (st', js)\<close> when it holds the adopted array \<open>js\<close> that is none, \<open>st'\<close> giving all
  the other cells. The timer is started and the loading flag cleared in both.
\<close>

definition load_effect ::
    "(string \<Rightarrow> json option) \<Rightarrow> storage \<Rightarrow> load_result \<Rightarrow> int \<Rightarrow> nat \<Rightarrow> SubmitState
      \<Rightarrow> SubmitState \<times> json list + SubmitState" where
  "load_effect parse ls fetched now h st =
     (if \<not> truthy_id (assignmentId st)
      then Inr (st\<lparr>s_error := Some ''No assignment ID found in route.'', s_loading := False\<rparr>)
      else
        (let st0 = st\<lparr>s_loading := True, s_error := None\<rparr> in
         case fetched of
           Load_failed msg \<Rightarrow>
             Inr (st0\<lparr>s_error := Some (or_else (Some msg) ''Failed to load assignment''),
                      s_loading := False\<rparr>)
         | Loaded a \<Rightarrow>
             (let st1 = st0\<lparr>assignment := a\<rparr>;
                  draft = read_draft parse ls (LOCAL_STORAGE_KEY (assignmentId st))
              in case restore_or_init draft a (answers st1) of
                   Inl js \<Rightarrow>
                     Inl (st1\<lparr>startedAtRef := now, timerRef := Some h, s_loading := False\<rparr>,
                          js)
                 | Inr es \<Rightarrow>
                     Inr (st1\<lparr>answers := es, startedAtRef := now, timerRef := Some h,
                              s_loading := False\<rparr>))))"

subsection \<open>Autosave and the answer handlers\<close>

text \<open>
  The autosave effect: it runs after a render in which \<open>answers\<close>, \<open>assignment\<close> or the key
  changed, and a throwing write is ignored.
\<close>

definition autosave :: "(json \<Rightarrow> string) \<Rightarrow> bool \<Rightarrow> SubmitState \<Rightarrow> storage \<Rightarrow> storage" where
  "autosave stringify throws st ls =
     (case assignment st of
        None \<Rightarrow> ls
      | Some a \<Rightarrow>
          (case setItem throws ls (LOCAL_STORAGE_KEY (assignmentId st))
                  (stringify (draft_json (answers st))) of
             None \<Rightarrow> ls
           | Some ls' \<Rightarrow> ls'))"

text \<open>\<^verbatim>\<open>Array.prototype.findIndex\<close> and \<^verbatim>\<open>indexOf\<close>: \<open>None\<close> stands for \<open>-1\<close>.\<close>

fun findIndex :: "('a \<Rightarrow> bool) \<Rightarrow> 'a list \<Rightarrow> nat option" where
  "findIndex P [] = None"
| "findIndex P (x # xs) = (if P x then Some 0 else map_option Suc (findIndex P xs))"

definition indexOf :: "'a list \<Rightarrow> 'a \<Rightarrow> nat option" where
  "indexOf xs v = findIndex (\<lambda>x. x = v) xs"

text \<open>\<^verbatim>\<open>xs.splice(pos, 1)\<close>: the array without its element at \<open>pos\<close>.\<close>

definition splice1 :: "nat \<Rightarrow> 'a list \<Rightarrow> 'a list" where
  "splice1 pos xs = take pos xs @ drop (Suc pos) xs"

text \<open>The updater that \<^verbatim>\<open>setAnswer\<close> hands to \<^verbatim>\<open>setAnswers\<close>.\<close>

definition setAnswer :: "string \<Rightarrow> answer \<Rightarrow> AnswerEntry list \<Rightarrow> AnswerEntry list" where
  "setAnswer qid v prev =
     (let copy = prev in
      case findIndex (\<lambda>x. questionId x = qid) copy of
        None \<Rightarrow> copy @ [\<lparr>questionId = qid, answer = v\<rparr>]
      | Some idx \<Rightarrow> copy[idx := (copy ! idx)\<lparr>answer := v\<rparr>])"

text \<open>The updater that \<^verbatim>\<open>toggleMulti\<close> hands to \<^verbatim>\<open>setAnswers\<close>.\<close>

definition toggleMulti :: "string \<Rightarrow> string \<Rightarrow> AnswerEntry list \<Rightarrow> AnswerEntry list" where
  "toggleMulti qid opt prev =
     (let copy = prev in
      case findIndex (\<lambda>x. questionId x = qid) copy of
        None \<Rightarrow> prev
      | Some idx \<Rightarrow>
          (let current = (case answer (copy ! idx) of AArr xs \<Rightarrow> xs | AStr s \<Rightarrow> []);
               current' = (case indexOf current opt of
                             None \<Rightarrow> current @ [opt]
                           | Some pos \<Rightarrow> splice1 pos current)
           in copy[idx := (copy ! idx)\<lparr>answer := AArr current'\<rparr>]))"

text \<open>
  A call of a handler, followed by the render and the autosave effect it causes.
  \<^verbatim>\<open>setAnswer\<close> always returns a new array, so the effect always runs; \<^verbatim>\<open>toggleMulti\<close>
  returns \<^verbatim>\<open>prev\<close> itself when it finds no entry, and React then renders nothing anew.
\<close>

definition call_setAnswer ::
    "(json \<Rightarrow> string) \<Rightarrow> bool \<Rightarrow> string \<Rightarrow> answer \<Rightarrow> SubmitState \<times> storage
      \<Rightarrow> SubmitState \<times> storage" where
  "call_setAnswer stringify throws qid v s =
     (let st' = (fst s)\<lparr>answers := setAnswer qid v (answers (fst s))\<rparr>
      in (st', autosave stringify throws st' (snd s)))"

definition call_toggleMulti ::
    "(json \<Rightarrow> string) \<Rightarrow> bool \<Rightarrow> string \<Rightarrow> string \<Rightarrow> SubmitState \<times> storage
      \<Rightarrow> SubmitState \<times> storage" where
  "call_toggleMulti stringify throws qid opt s =
     (case findIndex (\<lambda>x. questionId x = qid) (answers (fst s)) of
        None \<Rightarrow> s
      | Some idx \<Rightarrow>
          (let st' = (fst s)\<lparr>answers := toggleMulti qid opt (answers (fst s))\<rparr>
           in (st', autosave stringify throws st' (snd s))))"

subsection \<open>Submission\<close>

text \<open>
  The message of the \<^verbatim>\<open>TypeError\<close> that reading \<^verbatim>\<open>json.data\<close> throws when the body is the
  JSON text \<^verbatim>\<open>null\<close> (the wording is the engine's).
\<close>

definition TypeError_null_data :: string where
  "TypeError_null_data = ''Cannot read properties of null''"

definition submit_request :: "string \<Rightarrow> SubmitState \<Rightarrow> Request" where
  "submit_request aid st =
     \<lparr>req_url = ''/api/assignments/'' @ aid @ ''/submit'',
      req_method = ''POST'',
      req_body = js_object
        [(''answers'', Some (JArr (map entry_json (answers st)))),
         (''timeSpent'', Some (JNum (timeSpentSec st)))]\<rparr>"

text \<open>
  The \<^verbatim>\<open>try\<close> block of \<^verbatim>\<open>handleSubmit\<close> once \<^verbatim>\<open>fetch\<close> has answered: the state and the
  storage where the block ends, and the message of the error thrown there, \<open>None\<close> when the
  block runs to its end. \<open>rm\<close> is the message of the error that \<^verbatim>\<open>localStorage.removeItem\<close>
  throws, \<open>None\<close> when it throws none; the call stands unguarded in the block, after
  \<^verbatim>\<open>setResult\<close> and before the timer is cleared.
\<close>

definition handleSubmit_try ::
    "string option \<Rightarrow> fetch_result \<Rightarrow> SubmitState \<Rightarrow> storage
      \<Rightarrow> SubmitState \<times> storage \<times> string option" where
  "handleSubmit_try rm fr st ls =
     (case fr of
        Rejected msg \<Rightarrow> (st, ls, Some msg)
      | Resolved res \<Rightarrow>
          (let json = json_or_empty res in
           if \<not> res_ok res
           then (st, ls, Some (or_else (message_of json)
                                 (''Submission failed ('' @ toString (res_status res) @ '')'')))
           else if json = JNull then (st, ls, Some TypeError_null_data)
           else
             (let data = (case get_prop json ''data'' of
                            Some d \<Rightarrow> if truthy d then d else json
                          | None \<Rightarrow> json);
                  st1 = st\<lparr>result := Some data\<rparr>
              in case removeItem rm ls (LOCAL_STORAGE_KEY (assignmentId st)) of
                   Inl msg \<Rightarrow> (st1, ls, Some msg)
                 | Inr ls' \<Rightarrow>
                     (let st2 = st1\<lparr>timerRef := None\<rparr>
                      in (st2\<lparr>alert := Some (success,
                                      or_else (message_of json) ''Submitted successfully'')\<rparr>,
                          ls', None)))))"

text \<open>
  \<^verbatim>\<open>handleSubmit\<close>: the request sent (none when no assignment identifier is resolved), the
  state and the storage once the handler has finished. The \<^verbatim>\<open>catch\<close> block shows the message
  of a thrown error, the \<^verbatim>\<open>finally\<close> block resets the submitting flag.
\<close>

definition handleSubmit ::
    "string option \<Rightarrow> fetch_result \<Rightarrow> SubmitState \<Rightarrow> storage
      \<Rightarrow> Request option \<times> SubmitState \<times> storage" where
  "handleSubmit rm fr st ls =
     (if \<not> truthy_id (assignmentId st)
      then (None, st\<lparr>alert := Some (danger, ''Missing assignment ID.'')\<rparr>, ls)
      else
        (let st0 = st\<lparr>submitting := True, alert := None\<rparr>;
             req = submit_request (the (assignmentId st)) st
         in case handleSubmit_try rm fr st0 ls of
              (st1, ls', thrown) \<Rightarrow>
                (let st2 = (case thrown of
                              Some message \<Rightarrow>
                                st1\<lparr>alert := Some (danger,
                                                or_else (Some message) ''Submission failed'')\<rparr>
                            | None \<Rightarrow> st1)
                 in (Some req, st2\<lparr>submitting := False\<rparr>, ls'))))"

subsection \<open>Discovery of the assignment\<close>

text \<open>
  A reference that is either an identifier or a populated object, read as
  \<^verbatim>\<open>typeof r === 'string' ? r : r?._id\<close>.
\<close>

datatype ref = Ref_id string | Ref_obj "string option"

fun ref_id :: "ref \<Rightarrow> string option" where
  "ref_id (Ref_id s) = Some s"
| "ref_id (Ref_obj i) = i"

record IEnrollment =
  e_id :: string
  e_studentId :: ref
  e_courseId :: ref

record IAssignment =
  ia_id :: string
  ia_courseId :: ref
  ia_title :: string

text \<open>
  What a \<^verbatim>\<open>fetch\<close> of a list endpoint followed by \<^verbatim>\<open>res.json()\<close> came to: \<open>Api_failed\<close> when
  either rejected, else \<open>Api_data d\<close> with \<open>d\<close> the value of \<^verbatim>\<open>json?.data\<close>, \<open>None\<close> when it is
  \<^verbatim>\<open>null\<close> or \<^verbatim>\<open>undefined\<close>.
\<close>

datatype 'a api_result = Api_failed | Api_data "'a list option"

text \<open>\<^verbatim>\<open>Array.from(new Set(xs))\<close>: the first occurrence of every element, in order.\<close>

fun unique :: "'a list \<Rightarrow> 'a list" where
  "unique [] = []"
| "unique (x # xs) = x # unique (filter (\<lambda>y. y \<noteq> x) xs)"

definition enrolledCourseIds :: "string \<Rightarrow> IEnrollment list \<Rightarrow> string list" where
  "enrolledCourseIds userId enrollments =
     (let myEnrollments = filter (\<lambda>e. ref_id (e_studentId e) = Some userId) enrollments
      in unique (map the (filter truthy_id (map (\<lambda>e. ref_id (e_courseId e)) myEnrollments))))"

text \<open>
  \<^verbatim>\<open>discoverAssignmentForUser\<close>: the identifier it hands to \<^verbatim>\<open>setAssignmentMydataId\<close>, \<open>None\<close>
  when it returns without doing so. \<open>mounted\<close> is \<^verbatim>\<open>mountedRef.current\<close> when the two fetches
  have answered.
\<close>

definition discoverAssignmentForUser ::
    "(string \<Rightarrow> json option) \<Rightarrow> storage \<Rightarrow> IEnrollment api_result \<Rightarrow> IAssignment api_result
      \<Rightarrow> bool \<Rightarrow> string option" where
  "discoverAssignmentForUser parse ls enrollRes assignRes mounted =
     (case (case getItem ls ''user'' of
              None \<Rightarrow> Some JNull
            | Some dd \<Rightarrow> if dd = [] then Some JNull else parse dd) of
        None \<Rightarrow> None
      | Some ee \<Rightarrow>
          (let userId = (case get_prop ee ''_id'' of Some (JStr u) \<Rightarrow> Some u | _ \<Rightarrow> None) in
           if \<not> truthy_id userId then None
           else
             (case enrollRes of
                Api_failed \<Rightarrow> None
              | Api_data ed \<Rightarrow>
                  (let enrollments = (case ed of None \<Rightarrow> [] | Some es \<Rightarrow> es);
                       ids = enrolledCourseIds (the userId) enrollments
                   in if length ids = 0 then None
                      else
                        (case assignRes of
                           Api_failed \<Rightarrow> None
                         | Api_data ad \<Rightarrow>
                             (let allAssignments = (case ad of None \<Rightarrow> [] | Some as \<Rightarrow> as);
                                  matched = filter
                                    (\<lambda>a. truthy_id (ref_id (ia_courseId a)) \<and>
                                         the (ref_id (ia_courseId a)) \<in> set ids)
                                    allAssignments
                              in if length matched = 0 then None
                                 else if mounted then Some (ia_id (matched ! 0))
                                 else None))))))"

text \<open>
  The component starts with \<^verbatim>\<open>assignmentId\<close> set to the route parameter, and the discovery
  effect returns at once when that state is truthy.
\<close>

definition initial_state :: "string option \<Rightarrow> SubmitState" where
  "initial_state routeId =
     \<lparr>assignmentId = routeId, assignment = None, s_loading = True, s_error = None,
      answers = [], submitting = False, result = None, alert = None,
      startedAtRef = 0, timerRef = None, timeSpentSec = 0\<rparr>"

definition discovery_effect ::
    "(string \<Rightarrow> json option) \<Rightarrow> storage \<Rightarrow> IEnrollment api_result \<Rightarrow> IAssignment api_result
      \<Rightarrow> bool \<Rightarrow> SubmitState \<Rightarrow> SubmitState" where
  "discovery_effect parse ls enrollRes assignRes mounted st =
     (if truthy_id (assignmentId st) then st
      else (case discoverAssignmentForUser parse ls enrollRes assignRes mounted of
              None \<Rightarrow> st
            | Some aid \<Rightarrow> st\<lparr>assignmentId := Some aid\<rparr>))"

section \<open>The words of the specification\<close>

text \<open>
  The review list's filter as the specification words it: a submission is kept when its
  status is the selected one (any status under \<open>ALL\<close>) and, for a search text that is not
  blank, when the student's name, the student's e-mail address or the assignment
  identifier contains the text, whatever the case of the letters. The name is the one the
  detail view shows, first and last name joined by a space.
\<close>

definition contains_ci :: "string \<Rightarrow> string \<Rightarrow> bool" where
  "contains_ci field text = includes' (toLowerCase field) (toLowerCase text)"

definition student_name :: "Submission \<Rightarrow> string" where
  "student_name s =
     (case studentId s of
        None \<Rightarrow> []
      | Some st \<Rightarrow> trim (case_option [] id (firstName st) @ '' '' @ case_option [] id (lastName st)))"

definition student_email :: "Submission \<Rightarrow> string" where
  "student_email s = (case studentId s of None \<Rightarrow> [] | Some st \<Rightarrow> case_option [] id (email st))"

definition spec_keeps :: "string \<Rightarrow> string \<Rightarrow> Submission \<Rightarrow> bool" where
  "spec_keeps fStatus srch s =
     ((fStatus = ''ALL'' \<or> status s = fStatus) \<and>
      (trim srch = [] \<or>
       contains_ci (student_name s) (trim srch) \<or>
       contains_ci (student_email s) (trim srch) \<or>
       contains_ci (case_option [] id (sub_assignmentId s)) (trim srch)))"

subsection \<open>Answer sets\<close>

text \<open>
  The entry that an identifier addresses: the first one that carries it, as
  \<^verbatim>\<open>findIndex\<close> and \<^verbatim>\<open>find\<close> look entries up.
\<close>

definition entry_for :: "string \<Rightarrow> AnswerEntry list \<Rightarrow> AnswerEntry option" where
  "entry_for qid xs = find (\<lambda>x. questionId x = qid) xs"

text \<open>
  The answer set of an entry: the options of a multi-select answer. A plain string holds
  none, as \<^verbatim>\<open>toggleMulti\<close> reads it.
\<close>

fun selected_options :: "answer \<Rightarrow> string list" where
  "selected_options (AArr ys) = ys"
| "selected_options (AStr s) = []"

definition answer_set :: "answer \<Rightarrow> string set" where
  "answer_set a = set (selected_options a)"

text \<open>Toggling an option in a list of options: removed where present, added where absent.\<close>

definition toggled :: "string \<Rightarrow> string list \<Rightarrow> string list" where
  "toggled opt cur = (if opt \<in> set cur then remove1 opt cur else cur @ [opt])"

text \<open>No entry of the answer state holds an option twice.\<close>

definition no_repeats :: "AnswerEntry list \<Rightarrow> bool" where
  "no_repeats xs = list_all (\<lambda>e. distinct (selected_options (answer e))) xs"

subsection \<open>Outcomes of a request\<close>

text \<open>
  A successful backend response: \<^verbatim>\<open>fetch\<close> resolved and \<^verbatim>\<open>res.ok\<close> holds. A failed attempt
  is any other answer, a rejected \<^verbatim>\<open>fetch\<close> or a status that is not ok.
\<close>

definition succeeded :: "fetch_result \<Rightarrow> bool" where
  "succeeded fr = (case fr of Rejected msg \<Rightarrow> False | Resolved res \<Rightarrow> res_ok res)"

subsection \<open>Example values\<close>

text \<open>
  The grading scenario of the specification: a submission with score 40 is open in the
  detail view, the operator has entered the score 85 and the feedback \<open>Good work\<close>.
\<close>

definition sub85 :: Submission where
  "sub85 = \<lparr>sub_id = ''s1'', sub_assignmentId = Some ''a1'', studentId = None,
            status = ''SUBMITTED'', score = Some 40, attemptNumber = 1,
            submittedAt = ''2024-01-01'', sub_answers = None, timeSpent = None\<rparr>"

definition review85 :: ReviewState where
  "review85 = \<lparr>loading = False, error = None, submissions = [sub85], selected = Some sub85,
     grading = Some \<lparr>g_score = Some 85, g_feedback = Some ''Good work''\<rparr>,
     savingGrade = False, filterStatus = ''ALL'', search = [], page = 1\<rparr>"

definition ok200 :: fetch_result where
  "ok200 = Resolved \<lparr>res_ok = True, res_status = 200, res_json = Some (JObj [])\<rparr>"

definition err500 :: fetch_result where
  "err500 = Resolved \<lparr>res_ok = False, res_status = 500, res_json = None\<rparr>"

subsection \<open>Questions and their identifiers\<close>

text \<open>
  The Questions of an assignment, and the identifier derived for each: its order index,
  or its position where it has none, as a decimal numeral.
\<close>

definition questions_of :: "Assignment \<Rightarrow> Question list" where
  "questions_of a = (case questions a of None \<Rightarrow> [] | Some qs \<Rightarrow> qs)"

definition derived_ids :: "Assignment \<Rightarrow> string list" where
  "derived_ids a = map (\<lambda>(i, q). question_id q i) (enumerate 0 (questions_of a))"

text \<open>The number that a decimal numeral stands for.\<close>

definition undigits :: "string \<Rightarrow> nat" where
  "undigits s = foldl (\<lambda>a c. 10 * a + (of_char c - 48)) 0 s"

text \<open>
  Example assignments: the three questions of the specification's scenario, none with an
  order index, and two questions of which only the first has one.
\<close>

definition plain_question :: "question_type \<Rightarrow> int option \<Rightarrow> Question" where
  "plain_question ty ord =
     \<lparr>question = ''Q'', qtype = ty, options = None, correctAnswer = None, points = 1,
      order = ord\<rparr>"

definition assignment_with :: "Question list \<Rightarrow> Assignment" where
  "assignment_with qs =
     \<lparr>a_id = ''a1'', title = ''Quiz'', description = None, a_type = None, instructions = None,
      a_status = ''PUBLISHED'', totalPoints = None, passingScore = None, dueDate = None,
      allowLateSubmission = None, latePenalty = None, maxAttempts = None, timeLimit = None,
      a_courseId = None, questions = Some qs\<rparr>"

definition three_questions :: Assignment where
  "three_questions =
     assignment_with [plain_question MULTIPLE_CHOICE None, plain_question TRUE_FALSE None,
                      plain_question ESSAY None]"

definition mixed_order :: Assignment where
  "mixed_order = assignment_with [plain_question ESSAY (Some 1), plain_question ESSAY None]"

subsection \<open>Cached drafts\<close>

text \<open>
  A well-formed cached draft: local storage holds, under the key, a text that parses to an
  object containing an answer list (the empty text is no JSON text). The result is that
  list.
\<close>

definition cached_answers :: "(string \<Rightarrow> json option) \<Rightarrow> storage \<Rightarrow> string \<Rightarrow> json list option" where
  "cached_answers parse ls key =
     (case getItem ls key of
        None \<Rightarrow> None
      | Some raw \<Rightarrow>
          if raw = [] then None
          else (case parse raw of
                  Some (JObj fs) \<Rightarrow>
                    (case map_of fs ''answers'' of Some (JArr js) \<Rightarrow> Some js | _ \<Rightarrow> None)
                | _ \<Rightarrow> None))"

text \<open>
  What the platform's \<^verbatim>\<open>JSON.parse\<close> and \<^verbatim>\<open>JSON.stringify\<close> do on a value made of objects,
  arrays and strings: the text is not empty and parses back to the value.
\<close>

definition json_round_trip :: "(string \<Rightarrow> json option) \<Rightarrow> (json \<Rightarrow> string) \<Rightarrow> json \<Rightarrow> bool" where
  "json_round_trip parse stringify v = (stringify v \<noteq> [] \<and> parse (stringify v) = Some v)"

subsection \<open>Example values of the assignment-taking component\<close>

text \<open>
  A printer of JSON texts (for strings that need no escape) and the parser that knows one
  text only, the one of the value \<open>v\<close>; they stand for \<^verbatim>\<open>JSON.stringify\<close> and
  \<^verbatim>\<open>JSON.parse\<close> in the examples.
\<close>

definition quote :: "string \<Rightarrow> string" where
  "quote s = CHR 0x22 # s @ [CHR 0x22]"

fun join :: "string list \<Rightarrow> string" where
  "join [] = []"
| "join [x] = x"
| "join (x # y # zs) = x @ '','' @ join (y # zs)"

fun print_json :: "json \<Rightarrow> string" where
  "print_json JNull = ''null''"
| "print_json (JBool b) = (if b then ''true'' else ''false'')"
| "print_json (JNum n) = toString n"
| "print_json (JStr s) = quote s"
| "print_json (JArr xs) = ''['' @ join (map print_json xs) @ '']''"
| "print_json (JObj fs) =
     ''{'' @ join (map (\<lambda>(k, v). quote k @ '':'' @ print_json v) fs) @ ''}''"

definition parse_only :: "json \<Rightarrow> string \<Rightarrow> json option" where
  "parse_only v s = (if s = print_json v then Some v else None)"

text \<open>
  The component with the three questions loaded under the identifier \<open>a1\<close>, the answers
  of the specification's scenario, those answers saved as a draft, and the same answers
  with the first one changed to \<open>C\<close>.
\<close>

definition taking :: SubmitState where
  "taking = (initial_state (Some ''a1''))
     \<lparr>assignment := Some three_questions, s_loading := False,
      answers := initial_answers three_questions, timerRef := Some 0\<rparr>"

definition saved_answers :: "AnswerEntry list" where
  "saved_answers =
     [\<lparr>questionId = ''0'', answer = AStr ''B''\<rparr>, \<lparr>questionId = ''1'', answer = AStr ''true''\<rparr>,
      \<lparr>questionId = ''2'', answer = AStr ''free text''\<rparr>]"

definition saved_storage :: storage where
  "saved_storage = [''assignment_draft_a1'' \<mapsto> print_json (draft_json saved_answers)]"

definition taking_saved :: SubmitState where
  "taking_saved = taking\<lparr>answers := saved_answers\<rparr>"

definition changed_answers :: "AnswerEntry list" where
  "changed_answers =
     [\<lparr>questionId = ''0'', answer = AStr ''C''\<rparr>, \<lparr>questionId = ''1'', answer = AStr ''true''\<rparr>,
      \<lparr>questionId = ''2'', answer = AStr ''free text''\<rparr>]"

subsection \<open>The message of a failed submission\<close>

text \<open>
  The error message of a failed attempt: the message of the network error, or the message
  field of the response body, or a generic fallback.
\<close>

definition failure_message :: "fetch_result \<Rightarrow> string" where
  "failure_message fr =
     (case fr of
        Rejected msg \<Rightarrow> or_else (Some msg) ''Submission failed''
      | Resolved res \<Rightarrow>
          or_else (message_of (json_or_empty res))
            (''Submission failed ('' @ toString (res_status res) @ '')''))"

text \<open>A successful response whose body is the JSON text \<^verbatim>\<open>null\<close>.\<close>

definition null_200 :: fetch_result where
  "null_200 = Resolved \<lparr>res_ok = True, res_status = 200, res_json = Some JNull\<rparr>"

text \<open>The response of the specification's scenario: 200 with the result in an envelope.\<close>

definition submitted_ok :: fetch_result where
  "submitted_ok = Resolved
     \<lparr>res_ok = True, res_status = 200,
      res_json = Some (JObj [(''data'', JObj [(''status'', JStr ''SUBMITTED''),
                                             (''attemptNumber'', JNum 1)])])\<rparr>"

subsection \<open>Enrolled courses\<close>

text \<open>
  The set of course identifiers from the enrollments of the user \<open>uid\<close>, the test that the
  course identifier of an assignment belongs to a set, and a fetched list, empty when the
  response carries none.
\<close>

definition enrolled_courses :: "string \<Rightarrow> IEnrollment list \<Rightarrow> string set" where
  "enrolled_courses uid enrollments =
     {c. c \<noteq> [] \<and>
         (\<exists>e \<in> set enrollments. ref_id (e_studentId e) = Some uid \<and> ref_id (e_courseId e) = Some c)}"

definition course_in :: "string set \<Rightarrow> IAssignment \<Rightarrow> bool" where
  "course_in ids a = (case ref_id (ia_courseId a) of None \<Rightarrow> False | Some c \<Rightarrow> c \<in> ids)"

definition list_of :: "'a list option \<Rightarrow> 'a list" where
  "list_of d = (case d of None \<Rightarrow> [] | Some xs \<Rightarrow> xs)"

text \<open>
  Example values: the cached record of the user \<open>u1\<close>, who is enrolled in the course \<open>c2\<close>,
  and three assignments, the second and third of that course.
\<close>

definition user_u1 :: json where
  "user_u1 = JObj [(''_id'', JStr ''u1''), (''firstName'', JStr ''Alice'')]"

definition user_storage :: storage where
  "user_storage = [''user'' \<mapsto> print_json user_u1]"

definition some_enrollments :: "IEnrollment list" where
  "some_enrollments =
     [\<lparr>e_id = ''e1'', e_studentId = Ref_id ''u1'', e_courseId = Ref_obj (Some ''c2'')\<rparr>,
      \<lparr>e_id = ''e2'', e_studentId = Ref_id ''u2'', e_courseId = Ref_id ''c1''\<rparr>]"

definition some_assignments :: "IAssignment list" where
  "some_assignments =
     [\<lparr>ia_id = ''A1'', ia_courseId = Ref_id ''c1'', ia_title = ''One''\<rparr>,
      \<lparr>ia_id = ''A2'', ia_courseId = Ref_obj (Some ''c2''), ia_title = ''Two''\<rparr>,
      \<lparr>ia_id = ''A3'', ia_courseId = Ref_id ''c2'', ia_title = ''Three''\<rparr>]"

text \<open>
  The search scenario of the specification: a late submission of a student whose first
  name is written in capitals and whose e-mail address is \<open>alice@example.com\<close>.
\<close>

definition alice_sub :: Submission where
  "alice_sub =
     \<lparr>sub_id = ''s2'', sub_assignmentId = Some ''a1'',
      studentId = Some \<lparr>student_id = ''u1'', firstName = Some ''ALICE'', lastName = None,
                         email = Some ''alice@example.com'', avatar = None\<rparr>,
      status = ''LATE'', score = None, attemptNumber = 1, submittedAt = ''2024-01-02'',
      sub_answers = None, timeSpent = Some 125\<rparr>"

text \<open>
  A cached draft that this component did not write: its one entry carries the number 0
  where the identifier should be a string.
\<close>

definition untyped_draft :: json where
  "untyped_draft = JObj [(''answers'', JArr [JObj [(''questionId'', JNum 0), (''answer'', JStr ''B'')]])]"

definition untyped_storage :: storage where
  "untyped_storage = [''assignment_draft_a1'' \<mapsto> print_json untyped_draft]"

section \<open>The review list: filtering and pagination\<close>

lemma toLowerCase_Nil: "toLowerCase [] = []"
  by (simp add: toLowerCase_def)

lemma search_hit_spec:
  "search_hit (toLowerCase (trim srch)) s =
     (contains_ci (student_name s) (trim srch) \<or>
      contains_ci (student_email s) (trim srch) \<or>
      contains_ci (case_option [] id (sub_assignmentId s)) (trim srch))"
  by (simp add: search_hit_def contains_ci_def student_name_def student_email_def
      toLowerCase_Nil Let_def split: option.splits)

lemma filteredList_spec:
  "filteredList subs fStatus srch = filter (spec_keeps fStatus srch) subs"
  by (auto simp add: filteredList_def Let_def spec_keeps_def search_hit_spec intro: filter_cong)

lemma slice_nonneg:
  assumes "0 \<le> a" "a \<le> b"
  shows "slice xs a b = take (nat (b - a)) (drop (nat a) xs)"
  using assms by (auto simp add: slice_def Let_def min_def)

lemma length_slice_le: "length (slice xs a b) \<le> length xs"
proof -
  have "length (take n (drop k xs)) \<le> length xs" for n k by simp
  then show ?thesis by (simp only: slice_def Let_def)
qed

lemma length_slice_window: "0 \<le> w \<Longrightarrow> length (slice xs a (a + w)) \<le> nat w"
  by (auto simp add: slice_def Let_def)

lemma subseq_slice: "subseq (slice xs a b) xs"
proof -
  have "subseq (take n (drop k xs)) xs" for n k
    by (metis subseq_order.order_trans sublist_imp_subseq sublist_take sublist_drop)
  then show ?thesis by (simp only: slice_def Let_def)
qed

lemma concat_chunks:
  "concat (map (\<lambda>i. take k (drop (i * k) xs)) [0..<m]) = take (m * k) xs"
proof (induction m)
  case 0
  show ?case by simp
next
  case (Suc m)
  have "Suc m * k = m * k + k" by simp
  then have "take (Suc m * k) xs = take (m * k) xs @ take k (drop (m * k) xs)"
    by (simp only: take_add)
  with Suc show ?case by simp
qed

lemma upto_as_upt: "[1..int n] = map (\<lambda>i. int i + 1) [0..<n]"
proof (induction n)
  case 0
  show ?case by simp
next
  case (Suc n)
  have "[1..int (Suc n)] = [1..int n] @ [int n + 1]"
    using upto_rec2 [of 1 "int (Suc n)"] by simp
  with Suc show ?case by simp
qed

lemma pages_cover:
  assumes "int (length xs) \<le> T * PAGE_SIZE" "0 \<le> T"
  shows "concat (map (\<lambda>p. slice xs ((p - 1) * PAGE_SIZE) ((p - 1) * PAGE_SIZE + PAGE_SIZE)) [1..T])
         = xs"
proof -
  have sl: "slice xs (int i * PAGE_SIZE) (int i * PAGE_SIZE + PAGE_SIZE)
      = take 12 (drop (i * 12) xs)" for i
    by (simp add: slice_nonneg PAGE_SIZE_def nat_mult_distrib)
  have "[1..T] = map (\<lambda>i. int i + 1) [0..<nat T]"
    using upto_as_upt [of "nat T"] assms(2) by simp
  then have
    "concat (map (\<lambda>p. slice xs ((p - 1) * PAGE_SIZE) ((p - 1) * PAGE_SIZE + PAGE_SIZE)) [1..T])
      = concat (map (\<lambda>i. take 12 (drop (i * 12) xs)) [0..<nat T])"
    by (simp add: comp_def sl)
  also have "\<dots> = take (nat T * 12) xs" by (rule concat_chunks)
  also have "\<dots> = xs" using assms by (simp add: PAGE_SIZE_def)
  finally show ?thesis .
qed

lemma totalPages_enough: "totalFiltered st \<le> totalPages st * PAGE_SIZE \<and> 0 \<le> totalPages st"
proof -
  have "(n::int) \<le> max 1 ((n + 12 - 1) div 12) * 12 \<and> 0 \<le> max 1 ((n + 12 - 1) div 12)" for n
    by (simp only: max_def) presburger
  then show ?thesis by (simp only: totalPages_def PAGE_SIZE_def)
qed

text \<open>
  C7. Filtering twice with the same criteria is filtering once; the filtered list is a
  subsequence of the submissions; it keeps exactly the submissions that the
  specification's criteria keep (\<^const>\<open>spec_keeps\<close>: the status test, and for a search text
  that is not blank the search, trimmed, found in the name, the e-mail address or the
  assignment identifier without regard to case); a page never holds more than \<open>PAGE_SIZE\<close>
  items nor more than the filtered count, whatever the page number; and the pages
  \<open>1\<close> to \<open>totalPages\<close>, one after the other, are the filtered list.
\<close>

theorem filteredList_idempotent_ordered_paged:
  "filteredList (filteredList subs fStatus srch) fStatus srch = filteredList subs fStatus srch
   \<and> subseq (filteredList subs fStatus srch) subs
   \<and> filteredList subs fStatus srch = filter (spec_keeps fStatus srch) subs
   \<and> int (length (pageItems st)) \<le> PAGE_SIZE
   \<and> int (length (pageItems st)) \<le> totalFiltered st
   \<and> subseq (pageItems st) (filteredList (submissions st) (filterStatus st) (search st))
   \<and> concat (map (\<lambda>p. pageItems (st\<lparr>page := p\<rparr>)) [1..totalPages st])
       = filteredList (submissions st) (filterStatus st) (search st)"
proof -
  let ?fl = "filteredList (submissions st) (filterStatus st) (search st)"
  have idem: "filteredList (filteredList subs fStatus srch) fStatus srch
      = filteredList subs fStatus srch"
    by (simp add: filteredList_spec)
  have sub: "subseq (filteredList subs fStatus srch) subs"
    by (simp add: filteredList_spec)
  have len1: "int (length (pageItems st)) \<le> PAGE_SIZE"
    using length_slice_window [of PAGE_SIZE ?fl "(page st - 1) * PAGE_SIZE"]
    by (simp add: pageItems_def Let_def PAGE_SIZE_def)
  have len2: "int (length (pageItems st)) \<le> totalFiltered st"
    using length_slice_le [of ?fl]
    by (simp add: pageItems_def Let_def totalFiltered_def)
  have sub2: "subseq (pageItems st) ?fl"
    by (simp add: pageItems_def Let_def subseq_slice)
  have cover: "concat (map (\<lambda>p. pageItems (st\<lparr>page := p\<rparr>)) [1..totalPages st]) = ?fl"
    using pages_cover [of ?fl "totalPages st"] totalPages_enough [of st]
    by (simp add: pageItems_def Let_def totalFiltered_def)
  from idem sub len1 len2 sub2 cover show ?thesis
    by (simp add: filteredList_spec)
qed

text \<open>
  The theorem at the search scenario: the search text \<open>alice\<close>, with blanks around it,
  keeps the submission of Alice and drops the one without a student; filtering the result
  again changes nothing; the status filter keeps the submitted one; and the two
  submissions fit on the single page.
\<close>

theorem filteredList_idempotent_ordered_paged_witness:
  "filteredList [sub85, alice_sub] ''ALL'' '' alice '' = [alice_sub] \<and>
   filteredList [alice_sub] ''ALL'' '' alice '' = [alice_sub] \<and>
   filteredList [sub85, alice_sub] ''SUBMITTED'' [] = [sub85] \<and>
   pageItems (review85\<lparr>submissions := [sub85, alice_sub]\<rparr>) = [sub85, alice_sub] \<and>
   totalPages (review85\<lparr>submissions := [sub85, alice_sub]\<rparr>) = 1"
proof -
  let ?st = "review85\<lparr>submissions := [sub85, alice_sub]\<rparr>"
  have t: "trim '' alice '' = ''alice''" and t0: "trim [] = []"
    by (simp_all add: trim_def isWhiteSpace_def)
  have low: "toLowerCase ''alice'' = ''alice''" "toLowerCase ''alice@example.com'' = ''alice@example.com''"
    "toLowerCase ''ALICE'' = ''alice''" "toLowerCase ''a1'' = ''a1''"
    by code_simp+
  have tn: "trim ''ALICE '' = ''ALICE''" by (simp add: trim_def isWhiteSpace_def)
  have k1: "spec_keeps ''ALL'' '' alice '' alice_sub"
    by (simp add: spec_keeps_def contains_ci_def student_name_def student_email_def alice_sub_def
        t low tn)
  have k2: "\<not> spec_keeps ''ALL'' '' alice '' sub85"
    by (simp add: spec_keeps_def contains_ci_def student_name_def student_email_def sub85_def
        t low toLowerCase_Nil)
  have k3: "spec_keeps ''SUBMITTED'' [] sub85" "\<not> spec_keeps ''SUBMITTED'' [] alice_sub"
    by (simp_all add: spec_keeps_def sub85_def alice_sub_def t0)
  note inst = filteredList_idempotent_ordered_paged
  from inst [of "[sub85, alice_sub]" "''ALL''" "'' alice ''"] k1 k2
  have a: "filteredList [sub85, alice_sub] ''ALL'' '' alice '' = [alice_sub]" by simp
  from inst [of "[sub85, alice_sub]" "''ALL''" "'' alice ''"] a
  have b: "filteredList [alice_sub] ''ALL'' '' alice '' = [alice_sub]" by simp
  from inst [of "[sub85, alice_sub]" "''SUBMITTED''" "[]"] k3
  have c: "filteredList [sub85, alice_sub] ''SUBMITTED'' [] = [sub85]" by simp
  have fl: "filteredList (submissions ?st) (filterStatus ?st) (search ?st) = [sub85, alice_sub]"
    by (simp add: filteredList_def review85_def t0)
  have "totalFiltered ?st = 2" by (simp only: totalFiltered_def fl) simp
  then have tp: "totalPages ?st = 1"
    by (simp add: totalPages_def PAGE_SIZE_def)
  have "page ?st = 1" by (simp add: review85_def)
  then have "?st\<lparr>page := 1\<rparr> = ?st" by simp
  with inst [where st = ?st] tp fl have d: "pageItems ?st = [sub85, alice_sub]" by simp
  from a b c d tp show ?thesis by simp
qed

section \<open>Toggling an option\<close>

lemma findIndex_None: "findIndex P xs = None \<longleftrightarrow> (\<forall>x \<in> set xs. \<not> P x)"
  by (induction xs) auto

lemma findIndex_Some:
  "findIndex P xs = Some i \<Longrightarrow> i < length xs \<and> P (xs ! i) \<and> find P xs = Some (xs ! i)"
  by (induction xs arbitrary: i) (auto split: if_splits)

lemma findIndex_find_None: "findIndex P xs = None \<longleftrightarrow> find P xs = None"
  by (induction xs) auto

lemma findIndex_cong_ids:
  "map questionId ys = map questionId xs \<Longrightarrow>
   findIndex (\<lambda>x. questionId x = qid) ys = findIndex (\<lambda>x. questionId x = qid) xs"
proof (induction xs arbitrary: ys)
  case Nil
  then show ?case by simp
next
  case (Cons x xs)
  then obtain y ys' where "ys = y # ys'" by (cases ys) auto
  with Cons show ?case by auto
qed

lemma map_questionId_update:
  "map questionId (xs[i := (xs ! i)\<lparr>answer := v\<rparr>]) = map questionId xs"
  by (simp add: map_update list_update_same_conv) (metis list_update_id map_update)

lemma indexOf_None: "indexOf xs v = None \<longleftrightarrow> v \<notin> set xs"
  by (auto simp add: indexOf_def findIndex_None)

lemma splice1_indexOf: "indexOf xs v = Some pos \<Longrightarrow> splice1 pos xs = remove1 v xs"
  unfolding indexOf_def splice1_def
  by (induction xs arbitrary: pos) (auto split: if_splits)

lemma toggle_current:
  "(case indexOf cur opt of None \<Rightarrow> cur @ [opt] | Some pos \<Rightarrow> splice1 pos cur) = toggled opt cur"
proof (cases "indexOf cur opt")
  case None
  then have "opt \<notin> set cur" by (simp add: indexOf_None)
  with None show ?thesis by (simp add: toggled_def)
next
  case (Some pos)
  then have "opt \<in> set cur" using indexOf_None [of cur opt] by auto
  with Some show ?thesis by (simp add: toggled_def splice1_indexOf)
qed

lemma toggleMulti_found:
  assumes "findIndex (\<lambda>x. questionId x = qid) xs = Some idx"
  shows "toggleMulti qid opt xs =
         xs[idx := (xs ! idx)\<lparr>answer := AArr (toggled opt (selected_options (answer (xs ! idx))))\<rparr>]"
proof -
  have "(case answer (xs ! idx) of AArr ys \<Rightarrow> ys | AStr s \<Rightarrow> []) = selected_options (answer (xs ! idx))"
    by (cases "answer (xs ! idx)") auto
  then show ?thesis using assms by (simp add: toggleMulti_def Let_def toggle_current)
qed

lemma toggleMulti_missing:
  "entry_for qid xs = None \<Longrightarrow> toggleMulti qid opt xs = xs"
  by (simp add: entry_for_def toggleMulti_def flip: findIndex_find_None)

lemma entry_for_update:
  assumes "findIndex (\<lambda>x. questionId x = qid) xs = Some idx"
  shows "entry_for qid (xs[idx := (xs ! idx)\<lparr>answer := v\<rparr>]) = Some ((xs ! idx)\<lparr>answer := v\<rparr>)"
proof -
  let ?ys = "xs[idx := (xs ! idx)\<lparr>answer := v\<rparr>]"
  have "findIndex (\<lambda>x. questionId x = qid) ?ys = findIndex (\<lambda>x. questionId x = qid) xs"
    by (rule findIndex_cong_ids) (rule map_questionId_update)
  with assms have "findIndex (\<lambda>x. questionId x = qid) ?ys = Some idx" by simp
  from findIndex_Some [OF this] findIndex_Some [OF assms] show ?thesis
    by (simp add: entry_for_def)
qed

lemma entry_for_toggleMulti:
  assumes "entry_for qid xs = Some e"
  shows "entry_for qid (toggleMulti qid opt xs)
         = Some (e\<lparr>answer := AArr (toggled opt (selected_options (answer e)))\<rparr>)"
proof -
  from assms obtain idx where i: "findIndex (\<lambda>x. questionId x = qid) xs = Some idx"
    by (cases "findIndex (\<lambda>x. questionId x = qid) xs") (auto simp add: entry_for_def findIndex_find_None)
  with findIndex_Some [OF i] assms have "xs ! idx = e" by (simp add: entry_for_def)
  with i entry_for_update [OF i] show ?thesis by (simp add: toggleMulti_found)
qed

lemma set_toggled:
  "distinct cur \<Longrightarrow> set (toggled opt cur) = (if opt \<in> set cur then set cur - {opt} else insert opt (set cur))"
  by (auto simp add: toggled_def)

lemma distinct_toggled: "distinct cur \<Longrightarrow> distinct (toggled opt cur)"
  by (auto simp add: toggled_def)

lemma toggled_twice: "distinct cur \<Longrightarrow> set (toggled opt (toggled opt cur)) = set cur"
  by (auto simp add: toggled_def)

lemma toggled_twice_absent: "opt \<notin> set cur \<Longrightarrow> toggled opt (toggled opt cur) = cur"
  by (induction cur) (auto simp add: toggled_def)

lemma toggleMulti_length_ids:
  "length (toggleMulti qid opt xs) = length xs \<and>
   map questionId (toggleMulti qid opt xs) = map questionId xs"
proof (cases "findIndex (\<lambda>x. questionId x = qid) xs")
  case None
  then show ?thesis by (simp add: toggleMulti_def)
next
  case (Some idx)
  show ?thesis by (simp add: toggleMulti_found [OF Some] map_questionId_update)
qed

lemma toggleMulti_others:
  assumes "i < length xs" "questionId (xs ! i) \<noteq> qid"
  shows "toggleMulti qid opt xs ! i = xs ! i"
proof (cases "findIndex (\<lambda>x. questionId x = qid) xs")
  case None
  then show ?thesis by (simp add: toggleMulti_def)
next
  case (Some idx)
  from findIndex_Some [OF Some] assms have "idx \<noteq> i" by auto
  with Some show ?thesis by (simp add: toggleMulti_found)
qed

lemma no_repeats_toggleMulti:
  assumes "no_repeats xs"
  shows "no_repeats (toggleMulti qid opt xs)"
proof (cases "findIndex (\<lambda>x. questionId x = qid) xs")
  case None
  with assms show ?thesis by (simp add: toggleMulti_def)
next
  case (Some idx)
  from findIndex_Some [OF Some] have "idx < length xs" by simp
  with assms have "distinct (selected_options (answer (xs ! idx)))"
    by (simp add: no_repeats_def list_all_length)
  then have d: "distinct (toggled opt (selected_options (answer (xs ! idx))))"
    by (rule distinct_toggled)
  show ?thesis
    unfolding toggleMulti_found [OF Some] no_repeats_def list_all_length
  proof (intro allI impI)
    fix n
    assume "n < length (xs[idx := (xs ! idx)\<lparr>answer := AArr (toggled opt (selected_options (answer (xs ! idx))))\<rparr>])"
    then have n: "n < length xs" by simp
    show "distinct (selected_options (answer (xs[idx := (xs ! idx)\<lparr>answer := AArr (toggled opt (selected_options (answer (xs ! idx))))\<rparr>] ! n)))"
    proof (cases "n = idx")
      case True
      with n d show ?thesis by simp
    next
      case False
      with n assms show ?thesis by (simp add: no_repeats_def list_all_length)
    qed
  qed
qed

lemma no_repeats_setAnswer:
  assumes "no_repeats xs" "distinct (selected_options v)"
  shows "no_repeats (setAnswer qid v xs)"
proof (cases "findIndex (\<lambda>x. questionId x = qid) xs")
  case None
  with assms show ?thesis by (simp add: setAnswer_def no_repeats_def)
next
  case (Some idx)
  have "list_all (\<lambda>e. distinct (selected_options (answer e))) (xs[idx := (xs ! idx)\<lparr>answer := v\<rparr>])"
    unfolding list_all_length
  proof (intro allI impI)
    fix n
    assume "n < length (xs[idx := (xs ! idx)\<lparr>answer := v\<rparr>])"
    then have n: "n < length xs" by simp
    show "distinct (selected_options (answer (xs[idx := (xs ! idx)\<lparr>answer := v\<rparr>] ! n)))"
    proof (cases "n = idx")
      case True
      with n assms(2) show ?thesis by simp
    next
      case False
      with n assms(1) show ?thesis by (simp add: no_repeats_def list_all_length)
    qed
  qed
  with Some show ?thesis by (simp add: setAnswer_def no_repeats_def)
qed

lemma no_repeats_initial: "no_repeats (initial_answers a)"
  by (auto simp add: no_repeats_def initial_answers_def list_all_iff empty_answer_def
      split: option.splits answer.splits)

text \<open>
  C4. \<^verbatim>\<open>toggleMulti\<close> on an identifier that no entry carries returns the state as it is.
  On an entry whose answer holds no option twice, one call adds the option to the entry's
  answer set when it is absent and removes it when it is present, and two calls with the
  same option leave the entry with the answer set it had. A call keeps the number of
  entries, their identifiers and every entry under another identifier. No entry of the
  initial answers holds an option twice, and \<^verbatim>\<open>toggleMulti\<close> and \<^verbatim>\<open>setAnswer\<close> with a string
  keep it so.
\<close>

theorem toggleMulti_twice_restores_answer_set:
  "(entry_for qid xs = None \<longrightarrow> toggleMulti qid opt xs = xs) \<and>
   (entry_for qid xs = Some e \<and> distinct (selected_options (answer e)) \<longrightarrow>
      entry_for qid (toggleMulti qid opt xs)
        = Some (e\<lparr>answer := AArr (toggled opt (selected_options (answer e)))\<rparr>) \<and>
      answer_set (AArr (toggled opt (selected_options (answer e))))
        = (if opt \<in> answer_set (answer e) then answer_set (answer e) - {opt}
           else insert opt (answer_set (answer e))) \<and>
      map_option (answer_set \<circ> answer) (entry_for qid (toggleMulti qid opt (toggleMulti qid opt xs)))
        = Some (answer_set (answer e))) \<and>
   length (toggleMulti qid opt xs) = length xs \<and>
   map questionId (toggleMulti qid opt xs) = map questionId xs \<and>
   (\<forall>i < length xs. questionId (xs ! i) \<noteq> qid \<longrightarrow> toggleMulti qid opt xs ! i = xs ! i) \<and>
   no_repeats (initial_answers a) \<and>
   (no_repeats xs \<longrightarrow> no_repeats (toggleMulti qid opt xs)) \<and>
   (no_repeats xs \<longrightarrow> no_repeats (setAnswer qid (AStr s) xs))"
proof -
  have single: "entry_for qid (toggleMulti qid opt xs)
        = Some (e\<lparr>answer := AArr (toggled opt (selected_options (answer e)))\<rparr>)"
    if "entry_for qid xs = Some e"
    using that by (rule entry_for_toggleMulti)
  have sets: "answer_set (AArr (toggled opt (selected_options (answer e))))
        = (if opt \<in> answer_set (answer e) then answer_set (answer e) - {opt}
           else insert opt (answer_set (answer e)))"
    if "distinct (selected_options (answer e))"
    using set_toggled [OF that, of opt] by (simp add: answer_set_def)
  have twice: "map_option (answer_set \<circ> answer) (entry_for qid (toggleMulti qid opt (toggleMulti qid opt xs)))
        = Some (answer_set (answer e))"
    if "entry_for qid xs = Some e" "distinct (selected_options (answer e))"
  proof -
    from entry_for_toggleMulti [OF single [OF that(1)], of opt]
    have "entry_for qid (toggleMulti qid opt (toggleMulti qid opt xs))
        = Some (e\<lparr>answer := AArr (toggled opt (toggled opt (selected_options (answer e))))\<rparr>)"
      by simp
    with toggled_twice [OF that(2), of opt] show ?thesis by (simp add: answer_set_def)
  qed
  have inv3: "no_repeats (setAnswer qid (AStr s) xs)" if "no_repeats xs"
    using that by (rule no_repeats_setAnswer) simp
  from single sets twice inv3 show ?thesis
    using toggleMulti_missing [of qid xs opt] toggleMulti_length_ids [of qid opt xs]
      toggleMulti_others [of _ xs qid opt] no_repeats_initial [of a]
      no_repeats_toggleMulti [of xs qid opt]
    by blast
qed

text \<open>
  On an entry that holds the option twice, one call removes one occurrence only, so the
  option stays in the answer set, and two calls empty an answer set that held it.
\<close>

theorem toggleMulti_duplicate_counterexample:
  "toggleMulti ''0'' ''A'' [\<lparr>questionId = ''0'', answer = AArr [''A'', ''A'']\<rparr>]
     = [\<lparr>questionId = ''0'', answer = AArr [''A'']\<rparr>] \<and>
   ''A'' \<in> answer_set (AArr [''A'']) \<and>
   toggleMulti ''0'' ''A'' (toggleMulti ''0'' ''A'' [\<lparr>questionId = ''0'', answer = AArr [''A'', ''A'']\<rparr>])
     = [\<lparr>questionId = ''0'', answer = AArr []\<rparr>] \<and>
   answer_set (AArr []) \<noteq> answer_set (AArr [''A'', ''A''])"
  by (simp add: toggleMulti_def indexOf_def splice1_def answer_set_def)

text \<open>
  The theorem at a state with one entry holding \<open>A\<close> and \<open>B\<close>: toggling \<open>A\<close> leaves \<open>B\<close>,
  toggling it again gives the set of \<open>A\<close> and \<open>B\<close> back, and toggling under the identifier
  \<open>7\<close>, which no entry carries, changes nothing.
\<close>

theorem toggleMulti_twice_restores_answer_set_witness:
  "entry_for ''0'' [\<lparr>questionId = ''0'', answer = AArr [''A'', ''B'']\<rparr>]
     = Some \<lparr>questionId = ''0'', answer = AArr [''A'', ''B'']\<rparr> \<and>
   distinct [''A'', ''B''] \<and>
   entry_for ''7'' [\<lparr>questionId = ''0'', answer = AArr [''A'', ''B'']\<rparr>] = None \<and>
   no_repeats [\<lparr>questionId = ''0'', answer = AArr [''A'', ''B'']\<rparr>] \<and>
   toggleMulti ''7'' ''A'' [\<lparr>questionId = ''0'', answer = AArr [''A'', ''B'']\<rparr>]
     = [\<lparr>questionId = ''0'', answer = AArr [''A'', ''B'']\<rparr>] \<and>
   entry_for ''0'' (toggleMulti ''0'' ''A'' [\<lparr>questionId = ''0'', answer = AArr [''A'', ''B'']\<rparr>])
     = Some \<lparr>questionId = ''0'', answer = AArr [''B'']\<rparr> \<and>
   map_option (answer_set \<circ> answer)
     (entry_for ''0'' (toggleMulti ''0'' ''A''
        (toggleMulti ''0'' ''A'' [\<lparr>questionId = ''0'', answer = AArr [''A'', ''B'']\<rparr>])))
     = Some {''A'', ''B''} \<and>
   no_repeats (toggleMulti ''0'' ''A'' [\<lparr>questionId = ''0'', answer = AArr [''A'', ''B'']\<rparr>])"
  using toggleMulti_twice_restores_answer_set
      [where qid = "''0''" and opt = "''A''"
         and xs = "[\<lparr>questionId = ''0'', answer = AArr [''A'', ''B'']\<rparr>]"
         and e = "\<lparr>questionId = ''0'', answer = AArr [''A'', ''B'']\<rparr>"]
    toggleMulti_twice_restores_answer_set
      [where qid = "''7''" and opt = "''A''"
         and xs = "[\<lparr>questionId = ''0'', answer = AArr [''A'', ''B'']\<rparr>]"]
  by (simp add: entry_for_def toggled_def answer_set_def no_repeats_def)

text \<open>
  C9. When the entry that the identifier addresses holds a plain string, \<^verbatim>\<open>toggleMulti\<close>
  drops the string and leaves the one-element list of the option; a second call with the
  same option leaves the empty list, and a second call with any option leaves a list,
  never the string.
\<close>

theorem toggleMulti_discards_string:
  assumes "entry_for qid xs = Some e" and "answer e = AStr s"
  shows "entry_for qid (toggleMulti qid opt xs) = Some (e\<lparr>answer := AArr [opt]\<rparr>) \<and>
         entry_for qid (toggleMulti qid opt (toggleMulti qid opt xs)) = Some (e\<lparr>answer := AArr []\<rparr>) \<and>
         map_option answer (entry_for qid (toggleMulti qid opt' (toggleMulti qid opt xs)))
           \<noteq> Some (AStr s)"
proof -
  from entry_for_toggleMulti [OF assms(1), of opt] assms(2)
  have one: "entry_for qid (toggleMulti qid opt xs) = Some (e\<lparr>answer := AArr [opt]\<rparr>)"
    by (simp add: toggled_def)
  from entry_for_toggleMulti [OF one, of opt]
  have two: "entry_for qid (toggleMulti qid opt (toggleMulti qid opt xs)) = Some (e\<lparr>answer := AArr []\<rparr>)"
    by (simp add: toggled_def)
  from entry_for_toggleMulti [OF one, of opt']
  have any: "map_option answer (entry_for qid (toggleMulti qid opt' (toggleMulti qid opt xs)))
           \<noteq> Some (AStr s)"
    by simp
  from one two any show ?thesis by simp
qed

text \<open>The theorem at an essay answer \<open>free text\<close> toggled with the option \<open>B\<close>.\<close>

theorem toggleMulti_discards_string_witness:
  "entry_for ''2'' [\<lparr>questionId = ''2'', answer = AStr ''free text''\<rparr>]
     = Some \<lparr>questionId = ''2'', answer = AStr ''free text''\<rparr> \<and>
   toggleMulti ''2'' ''B'' [\<lparr>questionId = ''2'', answer = AStr ''free text''\<rparr>]
     = [\<lparr>questionId = ''2'', answer = AArr [''B'']\<rparr>] \<and>
   entry_for ''2'' (toggleMulti ''2'' ''B'' [\<lparr>questionId = ''2'', answer = AStr ''free text''\<rparr>])
     = Some \<lparr>questionId = ''2'', answer = AArr [''B'']\<rparr> \<and>
   entry_for ''2'' (toggleMulti ''2'' ''B''
       (toggleMulti ''2'' ''B'' [\<lparr>questionId = ''2'', answer = AStr ''free text''\<rparr>]))
     = Some \<lparr>questionId = ''2'', answer = AArr []\<rparr>"
  using toggleMulti_discards_string
      [where qid = "''2''" and opt = "''B''" and opt' = "''B''" and s = "''free text''"
         and xs = "[\<lparr>questionId = ''2'', answer = AStr ''free text''\<rparr>]"
         and e = "\<lparr>questionId = ''2'', answer = AStr ''free text''\<rparr>"]
  by (simp add: entry_for_def toggleMulti_def indexOf_def splice1_def)

section \<open>Saving a grade\<close>

lemma saveGrade_try_success:
  "succeeded fr \<Longrightarrow>
   saveGrade_try sel g fr st =
     Inr (closeDetail (st\<lparr>submissions :=
            map (\<lambda>p. if sub_id p = sub_id sel then graded g p else p) (submissions st),
          selected := map_option (graded g) (selected st)\<rparr>))"
  by (cases fr) (simp_all add: succeeded_def saveGrade_try_def Let_def)

lemma saveGrade_try_failure:
  "\<not> succeeded fr \<Longrightarrow> \<exists>msg. saveGrade_try sel g fr st = Inl msg"
  by (cases fr) (simp_all add: succeeded_def saveGrade_try_def Let_def)

text \<open>
  C6, as the code has it. With a submission selected and a grading form open, \<^verbatim>\<open>saveGrade\<close>
  sends one \<^verbatim>\<open>PUT\<close> to \<^verbatim>\<open>/api/submissions/{id}\<close> whose body carries the edited score and the
  edited feedback, each when present, and the fixed status \<open>GRADED\<close>. On a successful
  response every row with the selected identifier gets the edited score (its own when the
  edited one is absent) and the status \<open>GRADED\<close>, its other fields and all other rows stay
  as they are, the error stays as it is, and the detail view is closed: selection and
  grading form are cleared. On a failed attempt an error message is set and list,
  selection and grading form stay as they are. The saving flag is reset either way.
\<close>

theorem saveGrade_request_and_patch:
  assumes "selected st = Some sel" and "grading st = Some g"
  shows "fst (saveGrade fr st) = Some (grade_request sel g) \<and>
         req_url (grade_request sel g) = ''/api/submissions/'' @ sub_id sel \<and>
         req_method (grade_request sel g) = ''PUT'' \<and>
         get_prop (req_body (grade_request sel g)) ''score'' = map_option JNum (g_score g) \<and>
         get_prop (req_body (grade_request sel g)) ''feedback'' = map_option JStr (g_feedback g) \<and>
         get_prop (req_body (grade_request sel g)) ''status'' = Some (JStr ''GRADED'') \<and>
         (succeeded fr \<longrightarrow>
            submissions (snd (saveGrade fr st)) =
              map (\<lambda>p. if sub_id p = sub_id sel
                        then p\<lparr>score := (case g_score g of Some n \<Rightarrow> Some n | None \<Rightarrow> score p),
                               status := ''GRADED''\<rparr>
                        else p) (submissions st) \<and>
            selected (snd (saveGrade fr st)) = None \<and>
            grading (snd (saveGrade fr st)) = None \<and>
            error (snd (saveGrade fr st)) = error st) \<and>
         (\<not> succeeded fr \<longrightarrow>
            (\<exists>msg. error (snd (saveGrade fr st)) = Some msg) \<and>
            submissions (snd (saveGrade fr st)) = submissions st \<and>
            selected (snd (saveGrade fr st)) = selected st \<and>
            grading (snd (saveGrade fr st)) = grading st) \<and>
         savingGrade (snd (saveGrade fr st)) = False"
proof -
  have req: "fst (saveGrade fr st) = Some (grade_request sel g)"
    using assms by (simp add: saveGrade_def Let_def)
  have body: "get_prop (req_body (grade_request sel g)) ''score'' = map_option JNum (g_score g) \<and>
         get_prop (req_body (grade_request sel g)) ''feedback'' = map_option JStr (g_feedback g) \<and>
         get_prop (req_body (grade_request sel g)) ''status'' = Some (JStr ''GRADED'')"
    by (cases "g_score g"; cases "g_feedback g")
       (simp_all add: grade_request_def js_object_def)
  have ok: "submissions (snd (saveGrade fr st)) =
              map (\<lambda>p. if sub_id p = sub_id sel
                        then p\<lparr>score := (case g_score g of Some n \<Rightarrow> Some n | None \<Rightarrow> score p),
                               status := ''GRADED''\<rparr>
                        else p) (submissions st) \<and>
            selected (snd (saveGrade fr st)) = None \<and>
            grading (snd (saveGrade fr st)) = None \<and>
            error (snd (saveGrade fr st)) = error st" if "succeeded fr"
    using assms saveGrade_try_success [OF that, of sel g "st\<lparr>savingGrade := True\<rparr>"]
    by (simp add: saveGrade_def Let_def closeDetail_def graded_def)
  have ko: "(\<exists>msg. error (snd (saveGrade fr st)) = Some msg) \<and>
            submissions (snd (saveGrade fr st)) = submissions st \<and>
            selected (snd (saveGrade fr st)) = selected st \<and>
            grading (snd (saveGrade fr st)) = grading st" if "\<not> succeeded fr"
  proof -
    from saveGrade_try_failure [OF that, of sel g "st\<lparr>savingGrade := True\<rparr>"]
    obtain msg where "saveGrade_try sel g fr (st\<lparr>savingGrade := True\<rparr>) = Inl msg" ..
    with assms show ?thesis by (simp add: saveGrade_def Let_def)
  qed
  have fin: "savingGrade (snd (saveGrade fr st)) = False"
    using assms by (simp add: saveGrade_def Let_def)
  from req body ok ko fin show ?thesis
    by (simp add: grade_request_def)
qed

text \<open>The theorem at the grading scenario, once answered with 200 and once with 500.\<close>

theorem saveGrade_request_and_patch_witness:
  "selected review85 = Some sub85 \<and>
   grading review85 = Some \<lparr>g_score = Some 85, g_feedback = Some ''Good work''\<rparr> \<and>
   succeeded ok200 \<and> \<not> succeeded err500 \<and>
   submissions (snd (saveGrade ok200 review85)) = [sub85\<lparr>score := Some 85, status := ''GRADED''\<rparr>] \<and>
   selected (snd (saveGrade ok200 review85)) = None \<and>
   error (snd (saveGrade err500 review85)) = Some ''Failed to save (500)'' \<and>
   submissions (snd (saveGrade err500 review85)) = [sub85] \<and>
   selected (snd (saveGrade err500 review85)) = Some sub85"
proof -
  have s: "selected review85 = Some sub85"
    and g: "grading review85 = Some \<lparr>g_score = Some 85, g_feedback = Some ''Good work''\<rparr>"
    by (simp_all add: review85_def)
  have ok: "succeeded ok200" and ko: "\<not> succeeded err500"
    by (simp_all add: succeeded_def ok200_def err500_def)
  have "toString 500 = ''500''" by code_simp
  then have msg: "error (snd (saveGrade err500 review85)) = Some ''Failed to save (500)''"
    by (simp add: review85_def err500_def saveGrade_def saveGrade_try_def json_or_empty_def
        message_of_def or_else_def Let_def)
  from saveGrade_request_and_patch [OF s g, of ok200] ok
  have a: "submissions (snd (saveGrade ok200 review85))
             = [sub85\<lparr>score := Some 85, status := ''GRADED''\<rparr>]
           \<and> selected (snd (saveGrade ok200 review85)) = None"
    by (simp add: review85_def)
  from saveGrade_request_and_patch [OF s g, of err500] ko
  have b: "submissions (snd (saveGrade err500 review85)) = [sub85]
           \<and> selected (snd (saveGrade err500 review85)) = Some sub85"
    by (simp add: review85_def)
  from s g ok ko msg a b show ?thesis by simp
qed

text \<open>
  At the grading scenario answered with 200, the status in the request body is \<open>GRADED\<close>
  in capitals, not \<open>graded\<close>, and no submission is selected afterwards: the detail view
  shows no patched score.
\<close>

theorem saveGrade_status_case_counterexample:
  "get_prop (req_body (the (fst (saveGrade ok200 review85)))) ''status'' = Some (JStr ''GRADED'') \<and>
   get_prop (req_body (the (fst (saveGrade ok200 review85)))) ''status'' \<noteq> Some (JStr ''graded'') \<and>
   selected (snd (saveGrade ok200 review85)) = None"
  by (simp add: review85_def sub85_def ok200_def saveGrade_def saveGrade_try_def
      json_or_empty_def grade_request_def js_object_def closeDetail_def
      Let_def)

text \<open>
  C10, as the code has it. After \<^verbatim>\<open>onChangeScore("")\<close> the edited score is absent. A
  successful \<^verbatim>\<open>saveGrade\<close> then sends a body without a \<open>score\<close> property and with the status
  \<open>GRADED\<close>, sets the status of every row with the selected identifier to \<open>GRADED\<close> and
  leaves every score of the list in place; the patch that the updater of \<^verbatim>\<open>setSelected\<close>
  computes keeps the score of the selected submission too, and \<^verbatim>\<open>closeDetail\<close> then clears
  the selection and the grading form.
\<close>

theorem saveGrade_cleared_score_keeps_row_score:
  assumes "selected st = Some sel" and "succeeded fr"
  shows "(\<exists>g. grading (onChangeScore Number [] st) = Some g \<and> g_score g = None \<and>
              graded g sel = sel\<lparr>status := ''GRADED''\<rparr> \<and>
              fst (saveGrade fr (onChangeScore Number [] st)) = Some (grade_request sel g) \<and>
              get_prop (req_body (grade_request sel g)) ''score'' = None \<and>
              get_prop (req_body (grade_request sel g)) ''status'' = Some (JStr ''GRADED'')) \<and>
         submissions (snd (saveGrade fr (onChangeScore Number [] st))) =
           map (\<lambda>p. if sub_id p = sub_id sel then p\<lparr>status := ''GRADED''\<rparr> else p)
               (submissions st) \<and>
         map score (submissions (snd (saveGrade fr (onChangeScore Number [] st))))
           = map score (submissions st) \<and>
         selected (snd (saveGrade fr (onChangeScore Number [] st))) = None \<and>
         grading (snd (saveGrade fr (onChangeScore Number [] st))) = None"
proof -
  let ?st = "onChangeScore Number [] st"
  obtain g where g: "grading ?st = Some g" "g_score g = None"
    by (cases "grading st") (simp_all add: onChangeScore_def Let_def)
  have sel: "selected ?st = Some sel" and subs: "submissions ?st = submissions st"
    using assms(1) by (simp_all add: onChangeScore_def Let_def)
  have patch: "graded g p = p\<lparr>status := ''GRADED''\<rparr>" for p
    using g(2) by (simp add: graded_def)
  have body: "get_prop (req_body (grade_request sel g)) ''score'' = None \<and>
      get_prop (req_body (grade_request sel g)) ''status'' = Some (JStr ''GRADED'')"
    using g(2) by (cases "g_feedback g") (simp_all add: grade_request_def js_object_def)
  have run: "saveGrade fr ?st =
      (Some (grade_request sel g),
       (closeDetail (?st\<lparr>savingGrade := True,
          submissions := map (\<lambda>p. if sub_id p = sub_id sel then graded g p else p) (submissions ?st),
          selected := map_option (graded g) (selected ?st)\<rparr>))\<lparr>savingGrade := False\<rparr>)"
    using sel g(1) saveGrade_try_success [OF assms(2), of sel g "?st\<lparr>savingGrade := True\<rparr>"]
    by (simp add: saveGrade_def Let_def)
  have rows: "submissions (snd (saveGrade fr ?st)) =
           map (\<lambda>p. if sub_id p = sub_id sel then p\<lparr>status := ''GRADED''\<rparr> else p)
               (submissions st)"
    by (simp add: run closeDetail_def patch subs)
  have scores: "map score (submissions (snd (saveGrade fr ?st))) = map score (submissions st)"
    by (simp add: rows comp_def if_distrib cong: if_cong)
  have closed: "selected (snd (saveGrade fr ?st)) = None \<and> grading (snd (saveGrade fr ?st)) = None"
    by (simp add: run closeDetail_def)
  from g patch [of sel] body run rows scores closed show ?thesis by simp
qed

text \<open>The theorem at the grading scenario with the score input cleared.\<close>

theorem saveGrade_cleared_score_keeps_row_score_witness:
  "selected review85 = Some sub85 \<and> succeeded ok200 \<and>
   grading (onChangeScore (\<lambda>v. 0) [] review85)
     = Some \<lparr>g_score = None, g_feedback = Some ''Good work''\<rparr> \<and>
   submissions (snd (saveGrade ok200 (onChangeScore (\<lambda>v. 0) [] review85)))
     = [sub85\<lparr>status := ''GRADED''\<rparr>] \<and>
   map score (submissions (snd (saveGrade ok200 (onChangeScore (\<lambda>v. 0) [] review85))))
     = [Some 40]"
proof -
  have s: "selected review85 = Some sub85" by (simp add: review85_def)
  have ok: "succeeded ok200" by (simp add: succeeded_def ok200_def)
  have g: "grading (onChangeScore (\<lambda>v. 0) [] review85)
     = Some \<lparr>g_score = None, g_feedback = Some ''Good work''\<rparr>"
    by (simp add: onChangeScore_def review85_def)
  from saveGrade_cleared_score_keeps_row_score [OF s ok, of "\<lambda>v. 0"]
  have "submissions (snd (saveGrade ok200 (onChangeScore (\<lambda>v. 0) [] review85)))
     = [sub85\<lparr>status := ''GRADED''\<rparr>] \<and>
   map score (submissions (snd (saveGrade ok200 (onChangeScore (\<lambda>v. 0) [] review85))))
     = [Some 40]"
    by (simp add: review85_def sub85_def)
  with s ok g show ?thesis by (simp add: sub85_def)
qed

text \<open>
  A submission opened, its score input cleared and the grade saved with success: no
  submission is selected afterwards, so no detail view has the status \<open>GRADED\<close>.
\<close>

theorem saveGrade_cleared_score_closes_detail_counterexample:
  "selected (onChangeScore (\<lambda>v. 0) [] (openDetail sub85 review85)) = Some sub85 \<and>
   selected (snd (saveGrade ok200 (onChangeScore (\<lambda>v. 0) [] (openDetail sub85 review85)))) = None \<and>
   map_option status
     (selected (snd (saveGrade ok200 (onChangeScore (\<lambda>v. 0) [] (openDetail sub85 review85)))))
     \<noteq> Some ''GRADED''"
  by (simp add: review85_def sub85_def ok200_def openDetail_def onChangeScore_def saveGrade_def
      saveGrade_try_def json_or_empty_def closeDetail_def Let_def)

section \<open>Identifiers of questions and entries\<close>

lemma of_char_digit: "d < 10 \<Longrightarrow> (of_char (digit d) :: nat) = 48 + d"
  by (simp add: digit_def)

lemma undigits_digits: "undigits (digits n) = n"
proof (induction n rule: digits.induct)
  case (1 n)
  show ?case
  proof (cases "n < 10")
    case True
    then show ?thesis by (subst digits.simps) (simp add: undigits_def of_char_digit)
  next
    case False
    with 1 have "undigits (digits (n div 10)) = n div 10" by simp
    moreover have "digits n = digits (n div 10) @ [digit (n mod 10)]"
      using False by (subst digits.simps) simp
    ultimately show ?thesis
      by (simp add: undigits_def of_char_digit)
  qed
qed

lemma digits_inj: "digits m = digits n \<Longrightarrow> m = n"
  by (metis undigits_digits)

lemma digits_no_minus: "CHR ''-'' \<notin> set (digits n)"
proof (induction n rule: digits.induct)
  case (1 n)
  have d: "digit k \<noteq> CHR ''-''" if "k < 10" for k
  proof
    assume "digit k = CHR ''-''"
    then have "(of_char (digit k) :: nat) = of_char CHR ''-''" by simp
    with that show False by (simp add: of_char_digit)
  qed
  show ?case
  proof (cases "n < 10")
    case True
    then show ?thesis using d [of n] by (subst digits.simps) auto
  next
    case False
    with 1 have "CHR ''-'' \<notin> set (digits (n div 10))" by simp
    moreover have "digits n = digits (n div 10) @ [digit (n mod 10)]"
      using False by (subst digits.simps) simp
    ultimately show ?thesis using d [of "n mod 10"] by auto
  qed
qed

lemma toString_inj: "toString m = toString n \<Longrightarrow> m = n"
proof -
  assume eq: "toString m = toString n"
  have neg: "False" if "a < 0" "\<not> b < 0" "toString a = toString b" for a b
  proof -
    from that have "CHR ''-'' # digits (nat (- a)) = digits (nat b)" by (simp add: toString_def)
    then have "CHR ''-'' \<in> set (digits (nat b))" by (metis list.set_intros(1))
    with digits_no_minus show False by blast
  qed
  show "m = n"
  proof (cases "m < 0"; cases "n < 0")
    assume "m < 0" "n < 0"
    with eq have "nat (- m) = nat (- n)" by (auto simp add: toString_def dest: digits_inj)
    with \<open>m < 0\<close> \<open>n < 0\<close> show ?thesis by simp
  next
    assume "m < 0" "\<not> n < 0"
    with eq neg show ?thesis by blast
  next
    assume "\<not> m < 0" "n < 0"
    with eq neg [of n m] show ?thesis by simp
  next
    assume "\<not> m < 0" "\<not> n < 0"
    with eq have "nat m = nat n" by (auto simp add: toString_def dest: digits_inj)
    with \<open>\<not> m < 0\<close> \<open>\<not> n < 0\<close> show ?thesis by simp
  qed
qed

lemma initial_answers_ids: "map questionId (initial_answers a) = derived_ids a"
  by (simp add: initial_answers_def derived_ids_def questions_of_def comp_def case_prod_beta)

lemma initial_answers_length: "length (initial_answers a) = length (questions_of a)"
  by (simp add: initial_answers_def questions_of_def)

lemma initial_answers_nth:
  "i < length (questions_of a) \<Longrightarrow>
   initial_answers a ! i =
     \<lparr>questionId = question_id (questions_of a ! i) i, answer = empty_answer (questions_of a ! i)\<rparr>"
  by (simp add: initial_answers_def questions_of_def nth_enumerate_eq)

lemma derived_ids_length: "length (derived_ids a) = length (questions_of a)"
  by (simp add: derived_ids_def)

lemma derived_ids_nth:
  "i < length (questions_of a) \<Longrightarrow> derived_ids a ! i = question_id (questions_of a ! i) i"
  by (simp add: derived_ids_def nth_enumerate_eq)

lemma derived_ids_unordered:
  assumes "\<forall>q \<in> set (questions_of a). order q = None"
  shows "distinct (derived_ids a)"
proof -
  have "derived_ids a = map (\<lambda>i. toString (int i)) [0..<length (questions_of a)]"
  proof (rule nth_equalityI)
    show "length (derived_ids a) = length (map (\<lambda>i. toString (int i)) [0..<length (questions_of a)])"
      by (simp add: derived_ids_length)
  next
    fix i assume "i < length (derived_ids a)"
    then have i: "i < length (questions_of a)" by (simp add: derived_ids_length)
    with assms have "order (questions_of a ! i) = None" by simp
    with i show "derived_ids a ! i = map (\<lambda>i. toString (int i)) [0..<length (questions_of a)] ! i"
      by (simp add: derived_ids_nth question_id_def)
  qed
  moreover have "inj_on (\<lambda>i. toString (int i)) (set [0..<length (questions_of a)])"
    by (rule inj_onI) (auto dest: toString_inj)
  ultimately show ?thesis by (simp add: distinct_map)
qed

lemma derived_ids_ordered:
  assumes "\<forall>q \<in> set (questions_of a). order q \<noteq> None" "distinct (map order (questions_of a))"
  shows "distinct (derived_ids a)"
proof -
  have "derived_ids a = map (\<lambda>q. toString (the (order q))) (questions_of a)"
  proof (rule nth_equalityI)
    show "length (derived_ids a) = length (map (\<lambda>q. toString (the (order q))) (questions_of a))"
      by (simp add: derived_ids_length)
  next
    fix i assume "i < length (derived_ids a)"
    then have i: "i < length (questions_of a)" by (simp add: derived_ids_length)
    with assms(1) obtain n where "order (questions_of a ! i) = Some n"
      by (metis nth_mem option.exhaust)
    with i show "derived_ids a ! i = map (\<lambda>q. toString (the (order q))) (questions_of a) ! i"
      by (simp add: derived_ids_nth question_id_def)
  qed
  moreover have "inj_on (\<lambda>q. toString (the (order q))) (set (questions_of a))"
  proof (rule inj_onI)
    fix p q assume p: "p \<in> set (questions_of a)" and q: "q \<in> set (questions_of a)"
      and eq: "toString (the (order p)) = toString (the (order q))"
    from eq have "the (order p) = the (order q)" by (rule toString_inj)
    with assms(1) p q have "order p = order q" by (metis option.expand)
    with assms(2) p q show "p = q"
      by (meson distinct_map inj_onD)
  qed
  moreover from assms(2) have "distinct (questions_of a)" by (simp add: distinct_map)
  ultimately show ?thesis by (simp add: distinct_map)
qed

lemma setAnswer_known:
  assumes "findIndex (\<lambda>x. questionId x = qid) xs = Some idx"
  shows "setAnswer qid v xs = xs[idx := (xs ! idx)\<lparr>answer := v\<rparr>]"
  using assms by (simp add: setAnswer_def)

lemma setAnswer_ids:
  assumes "entry_for qid xs \<noteq> None"
  shows "map questionId (setAnswer qid v xs) = map questionId xs"
proof -
  from assms obtain idx where "findIndex (\<lambda>x. questionId x = qid) xs = Some idx"
    by (cases "findIndex (\<lambda>x. questionId x = qid) xs")
       (auto simp add: entry_for_def findIndex_find_None)
  then show ?thesis by (simp add: setAnswer_known map_questionId_update)
qed

lemma setAnswer_unknown:
  "entry_for qid xs = None \<Longrightarrow> setAnswer qid v xs = xs @ [\<lparr>questionId = qid, answer = v\<rparr>]"
  by (simp add: entry_for_def setAnswer_def flip: findIndex_find_None)

lemma entry_for_distinct:
  assumes "distinct (map questionId xs)" "i < length xs"
  shows "entry_for (questionId (xs ! i)) xs = Some (xs ! i)"
proof -
  have "\<not> questionId (xs ! j) = questionId (xs ! i)" if "j < i" for j
  proof
    assume "questionId (xs ! j) = questionId (xs ! i)"
    with that assms(2) have "map questionId xs ! j = map questionId xs ! i" by simp
    with nth_eq_iff_index_eq [OF assms(1), of j i] that assms(2) show False by simp
  qed
  with assms(2) show ?thesis
    unfolding entry_for_def find_Some_iff by blast
qed

lemma toString_small: "toString 0 = ''0''" "toString 1 = ''1''" "toString 2 = ''2''"
  by code_simp+

text \<open>
  Where the entries do follow the questions. The initial answers hold one entry per
  Question, in the order of the Questions, the entry at a position carrying the identifier
  derived for the Question there. Where the derived identifiers are pairwise distinct, the
  identifier of every Question addresses its own entry; they are distinct when no Question
  has an order index, and when every Question has one and no two share it. \<^verbatim>\<open>toggleMulti\<close>
  keeps the list of identifiers, \<^verbatim>\<open>setAnswer\<close> keeps it for an identifier that an entry
  carries, and appends an entry for one that none carries.
\<close>

theorem entries_follow_question_ids:
  "map questionId (initial_answers a) = derived_ids a \<and>
   length (initial_answers a) = length (questions_of a) \<and>
   (distinct (derived_ids a) \<longrightarrow>
      (\<forall>i < length (questions_of a).
         entry_for (question_id (questions_of a ! i) i) (initial_answers a)
           = Some (initial_answers a ! i))) \<and>
   ((\<forall>q \<in> set (questions_of a). order q = None) \<longrightarrow> distinct (derived_ids a)) \<and>
   ((\<forall>q \<in> set (questions_of a). order q \<noteq> None) \<and> distinct (map order (questions_of a))
      \<longrightarrow> distinct (derived_ids a)) \<and>
   map questionId (toggleMulti qid opt xs) = map questionId xs \<and>
   (entry_for qid xs \<noteq> None \<longrightarrow> map questionId (setAnswer qid v xs) = map questionId xs) \<and>
   (entry_for qid xs = None \<longrightarrow> setAnswer qid v xs = xs @ [\<lparr>questionId = qid, answer = v\<rparr>])"
proof -
  have found: "entry_for (question_id (questions_of a ! i) i) (initial_answers a)
           = Some (initial_answers a ! i)"
    if d: "distinct (derived_ids a)" and i: "i < length (questions_of a)" for i
  proof -
    from d have "distinct (map questionId (initial_answers a))"
      by (simp add: initial_answers_ids)
    moreover from i have "i < length (initial_answers a)" by (simp add: initial_answers_length)
    ultimately have "entry_for (questionId (initial_answers a ! i)) (initial_answers a)
        = Some (initial_answers a ! i)"
      by (rule entry_for_distinct)
    with i show ?thesis by (simp add: initial_answers_nth)
  qed
  show ?thesis
    using found initial_answers_ids [of a] initial_answers_length [of a]
      derived_ids_unordered [of a] derived_ids_ordered [of a]
      toggleMulti_length_ids [of qid opt xs] setAnswer_ids [of qid xs v]
      setAnswer_unknown [of qid xs v]
    by simp
qed

text \<open>The theorem at the three questions of the scenario.\<close>

theorem entries_follow_question_ids_witness:
  "map order (questions_of three_questions) = [None, None, None] \<and>
   distinct (derived_ids three_questions) \<and>
   map questionId (initial_answers three_questions) = [''0'', ''1'', ''2''] \<and>
   entry_for ''1'' (initial_answers three_questions) = Some \<lparr>questionId = ''1'', answer = AStr []\<rparr> \<and>
   entry_for ''1'' (setAnswer ''1'' (AStr ''true'') (initial_answers three_questions))
     = Some \<lparr>questionId = ''1'', answer = AStr ''true''\<rparr> \<and>
   map questionId (setAnswer ''1'' (AStr ''true'') (initial_answers three_questions))
     = [''0'', ''1'', ''2''] \<and>
   entry_for ''9'' (initial_answers three_questions) = None \<and>
   map questionId (setAnswer ''9'' (AStr ''x'') (initial_answers three_questions))
     = [''0'', ''1'', ''2'', ''9'']"
proof -
  have qs: "questions_of three_questions
      = [plain_question MULTIPLE_CHOICE None, plain_question TRUE_FALSE None,
         plain_question ESSAY None]"
    by (simp add: questions_of_def three_questions_def assignment_with_def)
  have none: "\<forall>q \<in> set (questions_of three_questions). order q = None"
    by (simp add: qs plain_question_def)
  have init: "initial_answers three_questions
      = [\<lparr>questionId = ''0'', answer = AStr []\<rparr>, \<lparr>questionId = ''1'', answer = AStr []\<rparr>,
         \<lparr>questionId = ''2'', answer = AStr []\<rparr>]"
    by (simp add: initial_answers_def three_questions_def assignment_with_def plain_question_def
        question_id_def empty_answer_def toString_small enumerate_eq_zip upt_rec)
  note inst1 = entries_follow_question_ids
    [where a = three_questions and qid = "''1''" and v = "AStr ''true''"
       and xs = "initial_answers three_questions"]
  note inst9 = entries_follow_question_ids
    [where a = three_questions and qid = "''9''" and v = "AStr ''x''"
       and xs = "initial_answers three_questions"]
  from inst1 none have d: "distinct (derived_ids three_questions)" by blast
  from inst1 have ids: "map questionId (initial_answers three_questions) = derived_ids three_questions"
    by blast
  have e1: "entry_for ''1'' (initial_answers three_questions)
      = Some \<lparr>questionId = ''1'', answer = AStr []\<rparr>"
    and e9: "entry_for ''9'' (initial_answers three_questions) = None"
    by (simp_all add: init entry_for_def)
  from inst1 e1 have k: "map questionId (setAnswer ''1'' (AStr ''true'') (initial_answers three_questions))
      = map questionId (initial_answers three_questions)"
    by simp
  from inst9 e9 have a9: "setAnswer ''9'' (AStr ''x'') (initial_answers three_questions)
      = initial_answers three_questions @ [\<lparr>questionId = ''9'', answer = AStr ''x''\<rparr>]"
    by simp
  have s1: "entry_for ''1'' (setAnswer ''1'' (AStr ''true'') (initial_answers three_questions))
     = Some \<lparr>questionId = ''1'', answer = AStr ''true''\<rparr>"
    by (simp add: init entry_for_def setAnswer_def)
  have ords: "map order (questions_of three_questions) = [None, None, None]"
    by (simp add: qs plain_question_def)
  from ords d e1 e9 k a9 s1 show ?thesis by (simp add: init)
qed

text \<open>
  C5. The claim fails on the code for an assignment of two questions, the first with the
  order index 1 and the second with none: the second falls back to its position, 1, and
  both resolve to the identifier \<open>1\<close>. The initial answers then hold that identifier twice,
  the identifier of the second question addresses the entry of the first, and an answer
  given to the second question is written into the entry of the first, the second entry
  staying empty.
\<close>

theorem mixed_order_identifiers_collide:
  "questions_of mixed_order = [plain_question ESSAY (Some 1), plain_question ESSAY None] \<and>
   question_id (plain_question ESSAY (Some 1)) 0 = ''1'' \<and>
   question_id (plain_question ESSAY None) 1 = ''1'' \<and>
   map questionId (initial_answers mixed_order) = [''1'', ''1''] \<and>
   \<not> distinct (map questionId (initial_answers mixed_order)) \<and>
   entry_for (question_id (plain_question ESSAY None) 1) (initial_answers mixed_order)
     = Some (initial_answers mixed_order ! 0) \<and>
   setAnswer (question_id (plain_question ESSAY None) 1) (AStr ''second'')
       (initial_answers mixed_order)
     = [\<lparr>questionId = ''1'', answer = AStr ''second''\<rparr>, \<lparr>questionId = ''1'', answer = AStr []\<rparr>]"
  by (simp add: questions_of_def initial_answers_def mixed_order_def assignment_with_def
      plain_question_def question_id_def empty_answer_def toString_small enumerate_eq_zip upt_rec
      entry_for_def setAnswer_def)

section \<open>Loading and saving the draft\<close>

lemma those_as_string: "those (map (as_string \<circ> JStr) xs) = Some xs"
  by (induction xs) simp_all

lemma as_answer_json: "as_answer (answer_json a) = Some a"
  by (cases a) (simp_all add: those_as_string)

lemma as_AnswerEntry_json: "as_AnswerEntry (entry_json e) = Some e"
  by (cases e) (simp add: as_AnswerEntry_def entry_json_def js_object_def as_answer_json)

lemma as_AnswerEntry_exact: "as_AnswerEntry j = Some e \<Longrightarrow> entry_json e = j"
  by (auto simp add: as_AnswerEntry_def split: option.splits json.splits if_splits)

lemma as_AnswerEntries_json: "as_AnswerEntries (map entry_json es) = Some es"
  unfolding as_AnswerEntries_def
  by (induction es) (simp_all add: as_AnswerEntry_json)

lemma as_AnswerEntries_exact: "as_AnswerEntries js = Some es \<Longrightarrow> map entry_json es = js"
  unfolding as_AnswerEntries_def
proof (induction js arbitrary: es)
  case Nil
  then show ?case by simp
next
  case (Cons j js)
  then obtain e es' where e: "as_AnswerEntry j = Some e"
    and es': "those (map as_AnswerEntry js) = Some es'" and "es = e # es'"
    by (auto split: option.splits)
  with Cons.IH [OF es'] as_AnswerEntry_exact [OF e] show ?case by simp
qed

lemma restore_draft_json: "restore_or_init (draft_json es) a prev = Inr es"
  by (simp add: restore_or_init_def draft_json_def js_object_def as_AnswerEntries_json)

lemma restore_or_init_cached:
  "restore_or_init (read_draft parse ls key) a prev =
     (case cached_answers parse ls key of
        Some js \<Rightarrow> (case as_AnswerEntries js of Some es \<Rightarrow> Inr es | None \<Rightarrow> Inl js)
      | None \<Rightarrow> (case a of Some a' \<Rightarrow> Inr (initial_answers a') | None \<Rightarrow> Inr prev))"
  by (auto simp add: restore_or_init_def read_draft_def cached_answers_def
      split: option.splits json.splits)

lemma cell_json_cached:
  assumes "cached_answers parse ls key = Some js"
  shows "cell_json (restore_or_init (read_draft parse ls key) a prev) = js"
proof (cases "as_AnswerEntries js")
  case None
  with assms show ?thesis by (simp add: restore_or_init_cached)
next
  case (Some es)
  with assms as_AnswerEntries_exact [OF Some] show ?thesis by (simp add: restore_or_init_cached)
qed

lemma LOCAL_STORAGE_KEY_id: "aid \<noteq> [] \<Longrightarrow> LOCAL_STORAGE_KEY (Some aid) = ''assignment_draft_'' @ aid"
  by (simp add: LOCAL_STORAGE_KEY_def truthy_id_def)

text \<open>
  C1. When local storage holds a well-formed cached draft under the key, the content of the
  \<open>answers\<close> cell after the load is the cached answer list, element for element, whatever
  the list holds: the entries themselves when the list is an \<^verbatim>\<open>AnswerEntry[]\<close>, the list as
  it came when it is none (and a list of entries written as JSON is read back as the same
  entries). When storage holds no such draft, the answers are the initial ones: one entry
  per Question of the fetched assignment, in the order of the Questions, the entry at
  position \<open>i\<close> carrying the order index of the Question there (or \<open>i\<close> where it has none) as
  a decimal numeral, with the empty list where the correct answer of the Question is a
  list and the empty string otherwise. The load effect of a component with a resolved
  identifier stores the fetched assignment and this content, starts the timer and clears
  the loading flag, and the key of the identifier \<open>aid\<close> is \<open>assignment_draft_\<close> followed by
  \<open>aid\<close>.
\<close>

theorem draft_restored_or_initialised:
  "(cached_answers parse ls key = Some js \<longrightarrow>
      cell_json (restore_or_init (read_draft parse ls key) a prev) = js) \<and>
   (cached_answers parse ls key = Some js \<and> as_AnswerEntries js = Some es \<longrightarrow>
      restore_or_init (read_draft parse ls key) a prev = Inr es \<and> map entry_json es = js) \<and>
   (cached_answers parse ls key = Some js \<and> as_AnswerEntries js = None \<longrightarrow>
      restore_or_init (read_draft parse ls key) a prev = Inl js) \<and>
   (cached_answers parse ls key = None \<longrightarrow>
      restore_or_init (read_draft parse ls key) (Some a') prev = Inr (initial_answers a')) \<and>
   as_AnswerEntries (map entry_json es') = Some es' \<and>
   length (initial_answers a') = length (questions_of a') \<and>
   (\<forall>i < length (questions_of a').
      initial_answers a' ! i =
        \<lparr>questionId = toString (case order (questions_of a' ! i) of Some n \<Rightarrow> n | None \<Rightarrow> int i),
         answer = (case correctAnswer (questions_of a' ! i) of
                     Some (AArr c) \<Rightarrow> AArr []
                   | _ \<Rightarrow> AStr [])\<rparr>) \<and>
   (truthy_id (assignmentId st) \<longrightarrow>
      (case load_effect parse ls (Loaded a) now h st of
         Inl (st', js') \<Rightarrow>
           restore_or_init (read_draft parse ls (LOCAL_STORAGE_KEY (assignmentId st))) a (answers st)
             = Inl js' \<and>
           assignment st' = a \<and> assignmentId st' = assignmentId st \<and>
           timerRef st' = Some h \<and> \<not> s_loading st'
       | Inr st' \<Rightarrow>
           restore_or_init (read_draft parse ls (LOCAL_STORAGE_KEY (assignmentId st))) a (answers st)
             = Inr (answers st') \<and>
           assignment st' = a \<and> assignmentId st' = assignmentId st \<and>
           timerRef st' = Some h \<and> \<not> s_loading st')) \<and>
   (aid \<noteq> [] \<longrightarrow> LOCAL_STORAGE_KEY (Some aid) = ''assignment_draft_'' @ aid)"
proof -
  have adopted: "cell_json (restore_or_init (read_draft parse ls key) a prev) = js"
    if "cached_answers parse ls key = Some js"
    using that by (rule cell_json_cached)
  have restored: "restore_or_init (read_draft parse ls key) a prev = Inr es \<and> map entry_json es = js"
    if "cached_answers parse ls key = Some js" "as_AnswerEntries js = Some es"
    using that as_AnswerEntries_exact [OF that(2)] by (simp add: restore_or_init_cached)
  have kept: "restore_or_init (read_draft parse ls key) a prev = Inl js"
    if "cached_answers parse ls key = Some js" "as_AnswerEntries js = None"
    using that by (simp add: restore_or_init_cached)
  have initialised: "restore_or_init (read_draft parse ls key) (Some a') prev = Inr (initial_answers a')"
    if "cached_answers parse ls key = None"
    using that by (simp add: restore_or_init_cached)
  have entries: "initial_answers a' ! i =
        \<lparr>questionId = toString (case order (questions_of a' ! i) of Some n \<Rightarrow> n | None \<Rightarrow> int i),
         answer = (case correctAnswer (questions_of a' ! i) of
                     Some (AArr c) \<Rightarrow> AArr []
                   | _ \<Rightarrow> AStr [])\<rparr>"
    if "i < length (questions_of a')" for i
    using that by (simp add: initial_answers_nth question_id_def empty_answer_def)
  have effect: "(case load_effect parse ls (Loaded a) now h st of
         Inl (st', js') \<Rightarrow>
           restore_or_init (read_draft parse ls (LOCAL_STORAGE_KEY (assignmentId st))) a (answers st)
             = Inl js' \<and>
           assignment st' = a \<and> assignmentId st' = assignmentId st \<and>
           timerRef st' = Some h \<and> \<not> s_loading st'
       | Inr st' \<Rightarrow>
           restore_or_init (read_draft parse ls (LOCAL_STORAGE_KEY (assignmentId st))) a (answers st)
             = Inr (answers st') \<and>
           assignment st' = a \<and> assignmentId st' = assignmentId st \<and>
           timerRef st' = Some h \<and> \<not> s_loading st')"
    if "truthy_id (assignmentId st)"
    using that by (simp add: load_effect_def Let_def split: sum.splits)
  from adopted restored kept initialised entries effect show ?thesis
    by (simp add: as_AnswerEntries_json initial_answers_length LOCAL_STORAGE_KEY_id)
qed

lemma print_draft_nonempty: "print_json (draft_json es) \<noteq> []"
  by (simp add: draft_json_def js_object_def)

lemma initial_three_questions:
  "initial_answers three_questions
      = [\<lparr>questionId = ''0'', answer = AStr []\<rparr>, \<lparr>questionId = ''1'', answer = AStr []\<rparr>,
         \<lparr>questionId = ''2'', answer = AStr []\<rparr>]"
  by (simp add: initial_answers_def three_questions_def assignment_with_def plain_question_def
      question_id_def empty_answer_def toString_small enumerate_eq_zip upt_rec)

text \<open>
  The theorem at the three questions of the scenario: with the saved draft in storage,
  with empty storage, and with a draft whose entry carries the number 0 as identifier,
  which is adopted as it is.
\<close>

theorem draft_restored_or_initialised_witness:
  "cached_answers (parse_only (draft_json saved_answers)) saved_storage ''assignment_draft_a1''
     = Some (map entry_json saved_answers) \<and>
   as_AnswerEntries (map entry_json saved_answers) = Some saved_answers \<and>
   restore_or_init
     (read_draft (parse_only (draft_json saved_answers)) saved_storage ''assignment_draft_a1'')
     (Some three_questions) [] = Inr saved_answers \<and>
   cached_answers (parse_only (draft_json saved_answers)) Map.empty ''assignment_draft_a1'' = None \<and>
   restore_or_init
     (read_draft (parse_only (draft_json saved_answers)) Map.empty ''assignment_draft_a1'')
     (Some three_questions) []
     = Inr [\<lparr>questionId = ''0'', answer = AStr []\<rparr>, \<lparr>questionId = ''1'', answer = AStr []\<rparr>,
            \<lparr>questionId = ''2'', answer = AStr []\<rparr>] \<and>
   cached_answers (parse_only untyped_draft) untyped_storage ''assignment_draft_a1''
     = Some [JObj [(''questionId'', JNum 0), (''answer'', JStr ''B'')]] \<and>
   as_AnswerEntries [JObj [(''questionId'', JNum 0), (''answer'', JStr ''B'')]] = None \<and>
   restore_or_init
     (read_draft (parse_only untyped_draft) untyped_storage ''assignment_draft_a1'')
     (Some three_questions) []
     = Inl [JObj [(''questionId'', JNum 0), (''answer'', JStr ''B'')]] \<and>
   truthy_id (assignmentId (initial_state (Some ''a1''))) \<and>
   map_sum (\<lambda>(st', js). (timerRef st', s_loading st', js)) (\<lambda>st'. (timerRef st', s_loading st'))
     (load_effect (parse_only untyped_draft) untyped_storage (Loaded (Some three_questions))
        1000 7 (initial_state (Some ''a1'')))
     = Inl (Some 7, False, [JObj [(''questionId'', JNum 0), (''answer'', JStr ''B'')]])"
proof -
  let ?parse = "parse_only (draft_json saved_answers)"
  let ?js = "[JObj [(''questionId'', JNum 0), (''answer'', JStr ''B'')]]"
  let ?st = "initial_state (Some ''a1'')"
  have c: "cached_answers ?parse saved_storage ''assignment_draft_a1''
     = Some (map entry_json saved_answers)"
    by (simp add: cached_answers_def getItem_def saved_storage_def parse_only_def
        print_draft_nonempty) (simp add: draft_json_def js_object_def)
  have n: "cached_answers ?parse Map.empty ''assignment_draft_a1'' = None"
    by (simp add: cached_answers_def getItem_def)
  have ne: "print_json untyped_draft \<noteq> []" by (simp add: untyped_draft_def)
  have u: "cached_answers (parse_only untyped_draft) untyped_storage ''assignment_draft_a1''
     = Some ?js"
    by (simp add: cached_answers_def getItem_def untyped_storage_def parse_only_def ne)
       (simp add: untyped_draft_def)
  have un: "as_AnswerEntries ?js = None"
    by (simp add: as_AnswerEntries_def as_AnswerEntry_def)
  have id: "truthy_id (assignmentId ?st)"
    and key: "LOCAL_STORAGE_KEY (assignmentId ?st) = ''assignment_draft_a1''"
    by (simp_all add: initial_state_def truthy_id_def LOCAL_STORAGE_KEY_def)
  note inst = draft_restored_or_initialised
    [where parse = ?parse and key = "''assignment_draft_a1''" and a' = three_questions
       and prev = "[]" and es = saved_answers and es' = saved_answers
       and js = "map entry_json saved_answers"]
  note inst_u = draft_restored_or_initialised
    [where parse = "parse_only untyped_draft" and key = "''assignment_draft_a1''"
       and ls = untyped_storage and a = "Some three_questions" and prev = "[]" and js = ?js
       and st = ?st and now = 1000 and h = 7]
  from inst [where ls = saved_storage and a = "Some three_questions"]
  have typed: "as_AnswerEntries (map entry_json saved_answers) = Some saved_answers"
    by blast
  from inst [where ls = saved_storage and a = "Some three_questions"] c typed
  have r: "restore_or_init (read_draft ?parse saved_storage ''assignment_draft_a1'')
     (Some three_questions) [] = Inr saved_answers"
    by blast
  from inst [where ls = Map.empty] n
  have i: "restore_or_init (read_draft ?parse Map.empty ''assignment_draft_a1'')
     (Some three_questions) [] = Inr (initial_answers three_questions)"
    by blast
  from inst_u u un
  have k: "restore_or_init
     (read_draft (parse_only untyped_draft) untyped_storage ''assignment_draft_a1'')
     (Some three_questions) [] = Inl ?js"
    by blast
  from inst_u id
  have "case load_effect (parse_only untyped_draft) untyped_storage (Loaded (Some three_questions))
              1000 7 ?st of
          Inl (st', js') \<Rightarrow>
            restore_or_init
              (read_draft (parse_only untyped_draft) untyped_storage
                 (LOCAL_STORAGE_KEY (assignmentId ?st))) (Some three_questions) (answers ?st)
              = Inl js' \<and>
            assignment st' = Some three_questions \<and> assignmentId st' = assignmentId ?st \<and>
            timerRef st' = Some 7 \<and> \<not> s_loading st'
        | Inr st' \<Rightarrow>
            restore_or_init
              (read_draft (parse_only untyped_draft) untyped_storage
                 (LOCAL_STORAGE_KEY (assignmentId ?st))) (Some three_questions) (answers ?st)
              = Inr (answers st') \<and>
            assignment st' = Some three_questions \<and> assignmentId st' = assignmentId ?st \<and>
            timerRef st' = Some 7 \<and> \<not> s_loading st'"
    by blast
  moreover have "answers ?st = []" by (simp add: initial_state_def)
  ultimately have l: "map_sum (\<lambda>(st', js). (timerRef st', s_loading st', js))
       (\<lambda>st'. (timerRef st', s_loading st'))
       (load_effect (parse_only untyped_draft) untyped_storage (Loaded (Some three_questions))
          1000 7 ?st)
     = Inl (Some 7, False, ?js)"
    using k by (auto simp add: key split: sum.splits)
  from c typed r n i u un k id l show ?thesis by (simp add: initial_three_questions)
qed

lemma autosave_writes:
  "assignment st = Some a \<Longrightarrow>
   autosave stringify False st ls
     = ls(LOCAL_STORAGE_KEY (assignmentId st) \<mapsto> stringify (draft_json (answers st)))"
  by (simp add: autosave_def setItem_def)

lemma autosave_throws: "autosave stringify True st ls = ls"
  by (simp add: autosave_def setItem_def split: option.splits)

lemma reload_after_write:
  assumes "json_round_trip parse stringify (draft_json es)"
  shows "restore_or_init (read_draft parse (ls(key \<mapsto> stringify (draft_json es))) key) a prev
         = Inr es"
proof -
  from assms have "read_draft parse (ls(key \<mapsto> stringify (draft_json es))) key = draft_json es"
    by (simp add: json_round_trip_def read_draft_def getItem_def)
  then show ?thesis by (simp add: restore_draft_json)
qed

lemma entry_for_findIndex:
  "entry_for qid xs \<noteq> None \<Longrightarrow> \<exists>idx. findIndex (\<lambda>x. questionId x = qid) xs = Some idx"
  by (cases "findIndex (\<lambda>x. questionId x = qid) xs")
     (auto simp add: entry_for_def findIndex_find_None)

text \<open>
  C3, as the code has it. With an assignment loaded, a call of \<^verbatim>\<open>setAnswer\<close> whose write to
  local storage succeeds leaves under the key of the assignment identifier the text of
  \<^verbatim>\<open>{answers}\<close> for the new answers, and, \<^verbatim>\<open>JSON.parse\<close> reading that text back, a reload under
  the key yields the answers in memory. The same holds for \<^verbatim>\<open>toggleMulti\<close> on an identifier
  that an entry carries; on one that none carries it changes neither the state nor the
  storage. A write that throws is ignored: the answers change and the storage stays as it
  was.
\<close>

theorem autosave_round_trip_when_written:
  assumes "assignment st = Some a"
  shows
    "(json_round_trip parse stringify (draft_json (setAnswer qid v (answers st))) \<longrightarrow>
        answers (fst (call_setAnswer stringify False qid v (st, ls)))
          = setAnswer qid v (answers st) \<and>
        getItem (snd (call_setAnswer stringify False qid v (st, ls)))
            (LOCAL_STORAGE_KEY (assignmentId st))
          = Some (stringify (draft_json (setAnswer qid v (answers st)))) \<and>
        restore_or_init
            (read_draft parse (snd (call_setAnswer stringify False qid v (st, ls)))
               (LOCAL_STORAGE_KEY (assignmentId st))) a2 prev
          = Inr (answers (fst (call_setAnswer stringify False qid v (st, ls))))) \<and>
     (entry_for qid (answers st) \<noteq> None \<and>
      json_round_trip parse stringify (draft_json (toggleMulti qid opt (answers st))) \<longrightarrow>
        answers (fst (call_toggleMulti stringify False qid opt (st, ls)))
          = toggleMulti qid opt (answers st) \<and>
        getItem (snd (call_toggleMulti stringify False qid opt (st, ls)))
            (LOCAL_STORAGE_KEY (assignmentId st))
          = Some (stringify (draft_json (toggleMulti qid opt (answers st)))) \<and>
        restore_or_init
            (read_draft parse (snd (call_toggleMulti stringify False qid opt (st, ls)))
               (LOCAL_STORAGE_KEY (assignmentId st))) a2 prev
          = Inr (answers (fst (call_toggleMulti stringify False qid opt (st, ls))))) \<and>
     (entry_for qid (answers st) = None \<longrightarrow>
        call_toggleMulti stringify throws qid opt (st, ls) = (st, ls)) \<and>
     call_setAnswer stringify True qid v (st, ls)
       = (st\<lparr>answers := setAnswer qid v (answers st)\<rparr>, ls) \<and>
     (entry_for qid (answers st) \<noteq> None \<longrightarrow>
        call_toggleMulti stringify True qid opt (st, ls)
          = (st\<lparr>answers := toggleMulti qid opt (answers st)\<rparr>, ls))"
proof -
  let ?set = "st\<lparr>answers := setAnswer qid v (answers st)\<rparr>"
  let ?tog = "st\<lparr>answers := toggleMulti qid opt (answers st)\<rparr>"
  have set_run: "call_setAnswer stringify False qid v (st, ls)
      = (?set, ls(LOCAL_STORAGE_KEY (assignmentId st)
                    \<mapsto> stringify (draft_json (setAnswer qid v (answers st)))))"
    using assms autosave_writes [of ?set a stringify ls]
    by (simp add: call_setAnswer_def Let_def)
  have tog_run: "call_toggleMulti stringify False qid opt (st, ls)
      = (?tog, ls(LOCAL_STORAGE_KEY (assignmentId st)
                    \<mapsto> stringify (draft_json (toggleMulti qid opt (answers st)))))"
    if "entry_for qid (answers st) \<noteq> None"
  proof -
    from entry_for_findIndex [OF that]
    obtain idx where "findIndex (\<lambda>x. questionId x = qid) (answers st) = Some idx" ..
    with assms autosave_writes [of ?tog a stringify ls] show ?thesis
      by (simp add: call_toggleMulti_def Let_def)
  qed
  have tog_thrown: "call_toggleMulti stringify True qid opt (st, ls) = (?tog, ls)"
    if "entry_for qid (answers st) \<noteq> None"
  proof -
    from entry_for_findIndex [OF that]
    obtain idx where "findIndex (\<lambda>x. questionId x = qid) (answers st) = Some idx" ..
    then show ?thesis by (simp add: call_toggleMulti_def Let_def autosave_throws)
  qed
  have tog_missing: "call_toggleMulti stringify throws qid opt (st, ls) = (st, ls)"
    if "entry_for qid (answers st) = None"
    using that by (simp add: call_toggleMulti_def entry_for_def flip: findIndex_find_None)
  have set_thrown: "call_setAnswer stringify True qid v (st, ls) = (?set, ls)"
    by (simp add: call_setAnswer_def Let_def autosave_throws)
  have c1: "answers (fst (call_setAnswer stringify False qid v (st, ls)))
          = setAnswer qid v (answers st) \<and>
        getItem (snd (call_setAnswer stringify False qid v (st, ls)))
            (LOCAL_STORAGE_KEY (assignmentId st))
          = Some (stringify (draft_json (setAnswer qid v (answers st)))) \<and>
        restore_or_init
            (read_draft parse (snd (call_setAnswer stringify False qid v (st, ls)))
               (LOCAL_STORAGE_KEY (assignmentId st))) a2 prev
          = Inr (answers (fst (call_setAnswer stringify False qid v (st, ls))))"
    if "json_round_trip parse stringify (draft_json (setAnswer qid v (answers st)))"
    using reload_after_write [OF that] by (simp add: set_run getItem_def)
  have c2: "answers (fst (call_toggleMulti stringify False qid opt (st, ls)))
          = toggleMulti qid opt (answers st) \<and>
        getItem (snd (call_toggleMulti stringify False qid opt (st, ls)))
            (LOCAL_STORAGE_KEY (assignmentId st))
          = Some (stringify (draft_json (toggleMulti qid opt (answers st)))) \<and>
        restore_or_init
            (read_draft parse (snd (call_toggleMulti stringify False qid opt (st, ls)))
               (LOCAL_STORAGE_KEY (assignmentId st))) a2 prev
          = Inr (answers (fst (call_toggleMulti stringify False qid opt (st, ls))))"
    if "entry_for qid (answers st) \<noteq> None"
      "json_round_trip parse stringify (draft_json (toggleMulti qid opt (answers st)))"
    using reload_after_write [OF that(2)] by (simp add: tog_run [OF that(1)] getItem_def)
  from c1 c2 tog_missing set_thrown tog_thrown show ?thesis by blast
qed

lemma setAnswer_saved: "setAnswer ''0'' (AStr ''C'') saved_answers = changed_answers"
  by (simp add: setAnswer_def saved_answers_def changed_answers_def)

text \<open>The theorem at the saved scenario, the first answer changed from \<open>B\<close> to \<open>C\<close>.\<close>

theorem autosave_round_trip_when_written_witness:
  "assignment taking_saved = Some three_questions \<and>
   json_round_trip (parse_only (draft_json changed_answers)) print_json
     (draft_json (setAnswer ''0'' (AStr ''C'') (answers taking_saved))) \<and>
   answers (fst (call_setAnswer print_json False ''0'' (AStr ''C'') (taking_saved, saved_storage)))
     = changed_answers \<and>
   restore_or_init
     (read_draft (parse_only (draft_json changed_answers))
        (snd (call_setAnswer print_json False ''0'' (AStr ''C'') (taking_saved, saved_storage)))
        ''assignment_draft_a1'')
     (Some three_questions) [] = Inr changed_answers"
proof -
  have a: "assignment taking_saved = Some three_questions"
    and ans: "answers taking_saved = saved_answers"
    and key: "LOCAL_STORAGE_KEY (assignmentId taking_saved) = ''assignment_draft_a1''"
    by (simp_all add: taking_saved_def taking_def initial_state_def LOCAL_STORAGE_KEY_def
        truthy_id_def)
  have rt: "json_round_trip (parse_only (draft_json changed_answers)) print_json
     (draft_json (setAnswer ''0'' (AStr ''C'') (answers taking_saved)))"
    by (simp add: json_round_trip_def parse_only_def ans setAnswer_saved print_draft_nonempty)
  from autosave_round_trip_when_written
    [OF a, where parse = "parse_only (draft_json changed_answers)" and stringify = print_json
       and qid = "''0''" and v = "AStr ''C''" and ls = saved_storage
       and ?a2.0 = "Some three_questions" and prev = "[]"] rt
  have "answers (fst (call_setAnswer print_json False ''0'' (AStr ''C'') (taking_saved, saved_storage)))
     = changed_answers \<and>
   restore_or_init
     (read_draft (parse_only (draft_json changed_answers))
        (snd (call_setAnswer print_json False ''0'' (AStr ''C'') (taking_saved, saved_storage)))
        ''assignment_draft_a1'')
     (Some three_questions) [] = Inr changed_answers"
    by (simp add: key ans setAnswer_saved)
  with a rt show ?thesis by simp
qed

text \<open>
  The same change with a write that throws: the state holds \<open>C\<close>, the storage still holds
  the draft with \<open>B\<close>, and a reload yields the saved answers, not the ones in memory.
\<close>

theorem autosave_failed_write_counterexample:
  "assignment taking_saved = Some three_questions \<and>
   answers (fst (call_setAnswer print_json True ''0'' (AStr ''C'') (taking_saved, saved_storage)))
     = changed_answers \<and>
   restore_or_init
     (read_draft (parse_only (draft_json saved_answers))
        (snd (call_setAnswer print_json True ''0'' (AStr ''C'') (taking_saved, saved_storage)))
        ''assignment_draft_a1'')
     (Some three_questions) [] = Inr saved_answers \<and>
   saved_answers \<noteq> changed_answers"
proof -
  have run: "call_setAnswer print_json True ''0'' (AStr ''C'') (taking_saved, saved_storage)
      = (taking_saved\<lparr>answers := changed_answers\<rparr>, saved_storage)"
    by (simp add: call_setAnswer_def Let_def autosave_throws taking_saved_def setAnswer_saved)
  have rd: "read_draft (parse_only (draft_json saved_answers)) saved_storage ''assignment_draft_a1''
      = draft_json saved_answers"
    by (simp add: read_draft_def getItem_def saved_storage_def parse_only_def print_draft_nonempty)
  have ne: "saved_answers \<noteq> changed_answers"
    by (simp add: saved_answers_def changed_answers_def)
  have a: "assignment taking_saved = Some three_questions"
    by (simp add: taking_saved_def taking_def initial_state_def)
  from run rd ne a show ?thesis by (simp add: restore_draft_json)
qed

section \<open>Submitting the answers\<close>

lemma or_else_nonempty: "b \<noteq> [] \<Longrightarrow> or_else a b \<noteq> []"
  by (simp add: or_else_def split: option.splits)

lemma or_else_Some: "m \<noteq> [] \<Longrightarrow> or_else (Some m) b = m"
  by (simp add: or_else_def)

lemma handleSubmit_try_failure:
  "\<not> succeeded fr \<Longrightarrow>
   \<exists>m. handleSubmit_try rm fr st ls = (st, ls, Some m) \<and>
       or_else (Some m) ''Submission failed'' = failure_message fr"
proof (cases fr)
  case (Rejected msg)
  then show ?thesis by (simp add: handleSubmit_try_def failure_message_def)
next
  case (Resolved res)
  assume "\<not> succeeded fr"
  with Resolved have nok: "\<not> res_ok res" by (simp add: succeeded_def)
  let ?m = "or_else (message_of (json_or_empty res))
            (''Submission failed ('' @ toString (res_status res) @ '')'')"
  have "?m \<noteq> []" by (rule or_else_nonempty) simp
  then have "or_else (Some ?m) ''Submission failed'' = ?m" by (rule or_else_Some)
  with Resolved nok show ?thesis
    by (simp add: handleSubmit_try_def failure_message_def Let_def)
qed

text \<open>
  Where \<^verbatim>\<open>handleSubmit\<close> does what the specification says. With an assignment identifier
  resolved it sends the answers and the time spent. On a successful response whose body
  is not \<^verbatim>\<open>null\<close> the result is stored, taken from a truthy \<open>data\<close> property and else the body
  itself, and the answers stay as they are; when \<^verbatim>\<open>removeItem\<close> throws nothing, the draft
  under the key of the identifier is removed, the timer is stopped and the alert reports
  success. On a failed attempt, a response that is not ok or a network failure, the alert
  shows the message of the failure and the answers, the storage, the timer and the stored
  result stay as they are. The submitting flag is reset either way.
\<close>

theorem handleSubmit_outcomes:
  assumes "truthy_id (assignmentId st)"
  shows
    "fst (handleSubmit rm fr st ls) = Some (submit_request (the (assignmentId st)) st) \<and>
     get_prop (req_body (submit_request (the (assignmentId st)) st)) ''answers''
       = Some (JArr (map entry_json (answers st))) \<and>
     get_prop (req_body (submit_request (the (assignmentId st)) st)) ''timeSpent''
       = Some (JNum (timeSpentSec st)) \<and>
     (fr = Resolved res \<and> res_ok res \<and> json_or_empty res \<noteq> JNull \<longrightarrow>
        (get_prop (json_or_empty res) ''data'' = Some d \<and> truthy d \<longrightarrow>
           result (fst (snd (handleSubmit rm fr st ls))) = Some d) \<and>
        (get_prop (json_or_empty res) ''data'' = Some d \<and> \<not> truthy d \<longrightarrow>
           result (fst (snd (handleSubmit rm fr st ls))) = Some (json_or_empty res)) \<and>
        (get_prop (json_or_empty res) ''data'' = None \<longrightarrow>
           result (fst (snd (handleSubmit rm fr st ls))) = Some (json_or_empty res)) \<and>
        result (fst (snd (handleSubmit rm fr st ls))) \<noteq> None \<and>
        answers (fst (snd (handleSubmit rm fr st ls))) = answers st) \<and>
     (fr = Resolved res \<and> res_ok res \<and> json_or_empty res \<noteq> JNull \<and> rm = None \<longrightarrow>
        snd (snd (handleSubmit rm fr st ls)) = ls(LOCAL_STORAGE_KEY (assignmentId st) := None) \<and>
        getItem (snd (snd (handleSubmit rm fr st ls))) (LOCAL_STORAGE_KEY (assignmentId st)) = None \<and>
        timerRef (fst (snd (handleSubmit rm fr st ls))) = None \<and>
        alert (fst (snd (handleSubmit rm fr st ls)))
          = Some (success, or_else (message_of (json_or_empty res)) ''Submitted successfully'')) \<and>
     (\<not> succeeded fr \<longrightarrow>
        alert (fst (snd (handleSubmit rm fr st ls))) = Some (danger, failure_message fr) \<and>
        answers (fst (snd (handleSubmit rm fr st ls))) = answers st \<and>
        snd (snd (handleSubmit rm fr st ls)) = ls \<and>
        timerRef (fst (snd (handleSubmit rm fr st ls))) = timerRef st \<and>
        result (fst (snd (handleSubmit rm fr st ls))) = result st) \<and>
     submitting (fst (snd (handleSubmit rm fr st ls))) = False"
proof -
  let ?st0 = "st\<lparr>submitting := True, alert := None\<rparr>"
  have req: "fst (handleSubmit rm fr st ls) = Some (submit_request (the (assignmentId st)) st)"
    using assms by (simp add: handleSubmit_def Let_def split: prod.splits)
  have b1: "get_prop (req_body (submit_request (the (assignmentId st)) st)) ''answers''
       = Some (JArr (map entry_json (answers st)))"
    and b2: "get_prop (req_body (submit_request (the (assignmentId st)) st)) ''timeSpent''
       = Some (JNum (timeSpentSec st))"
    by (simp_all add: submit_request_def js_object_def)
  have fin: "submitting (fst (snd (handleSubmit rm fr st ls))) = False"
    using assms by (simp add: handleSubmit_def Let_def split: prod.splits option.splits)
  have ok: "fr = Resolved res \<and> res_ok res \<and> json_or_empty res \<noteq> JNull \<longrightarrow>
        (get_prop (json_or_empty res) ''data'' = Some d \<and> truthy d \<longrightarrow>
           result (fst (snd (handleSubmit rm fr st ls))) = Some d) \<and>
        (get_prop (json_or_empty res) ''data'' = Some d \<and> \<not> truthy d \<longrightarrow>
           result (fst (snd (handleSubmit rm fr st ls))) = Some (json_or_empty res)) \<and>
        (get_prop (json_or_empty res) ''data'' = None \<longrightarrow>
           result (fst (snd (handleSubmit rm fr st ls))) = Some (json_or_empty res)) \<and>
        result (fst (snd (handleSubmit rm fr st ls))) \<noteq> None \<and>
        answers (fst (snd (handleSubmit rm fr st ls))) = answers st"
    using assms
    by (cases rm)
       (simp_all add: handleSubmit_def handleSubmit_try_def removeItem_def Let_def
          split: option.splits)
  have clean: "fr = Resolved res \<and> res_ok res \<and> json_or_empty res \<noteq> JNull \<and> rm = None \<longrightarrow>
        snd (snd (handleSubmit rm fr st ls)) = ls(LOCAL_STORAGE_KEY (assignmentId st) := None) \<and>
        getItem (snd (snd (handleSubmit rm fr st ls))) (LOCAL_STORAGE_KEY (assignmentId st)) = None \<and>
        timerRef (fst (snd (handleSubmit rm fr st ls))) = None \<and>
        alert (fst (snd (handleSubmit rm fr st ls)))
          = Some (success, or_else (message_of (json_or_empty res)) ''Submitted successfully'')"
    using assms
    by (simp add: handleSubmit_def handleSubmit_try_def removeItem_def getItem_def Let_def
        split: option.splits)
  have ko: "\<not> succeeded fr \<longrightarrow>
        alert (fst (snd (handleSubmit rm fr st ls))) = Some (danger, failure_message fr) \<and>
        answers (fst (snd (handleSubmit rm fr st ls))) = answers st \<and>
        snd (snd (handleSubmit rm fr st ls)) = ls \<and>
        timerRef (fst (snd (handleSubmit rm fr st ls))) = timerRef st \<and>
        result (fst (snd (handleSubmit rm fr st ls))) = result st"
  proof
    assume "\<not> succeeded fr"
    from handleSubmit_try_failure [OF this, of rm ?st0 ls]
    obtain m where "handleSubmit_try rm fr ?st0 ls = (?st0, ls, Some m)"
      "or_else (Some m) ''Submission failed'' = failure_message fr" by blast
    with assms show "alert (fst (snd (handleSubmit rm fr st ls))) = Some (danger, failure_message fr) \<and>
        answers (fst (snd (handleSubmit rm fr st ls))) = answers st \<and>
        snd (snd (handleSubmit rm fr st ls)) = ls \<and>
        timerRef (fst (snd (handleSubmit rm fr st ls))) = timerRef st \<and>
        result (fst (snd (handleSubmit rm fr st ls))) = result st"
      by (simp add: handleSubmit_def Let_def)
  qed
  from req b1 b2 ok clean ko fin show ?thesis by (intro conjI)
qed

text \<open>
  The specification's scenario: the saved answers submitted, answered with 200 and the
  result in an envelope, and answered with status 500.
\<close>

theorem handleSubmit_outcomes_witness:
  "truthy_id (assignmentId taking_saved) \<and>
   result (fst (snd (handleSubmit None submitted_ok taking_saved saved_storage)))
     = Some (JObj [(''status'', JStr ''SUBMITTED''), (''attemptNumber'', JNum 1)]) \<and>
   getItem (snd (snd (handleSubmit None submitted_ok taking_saved saved_storage)))
     ''assignment_draft_a1'' = None \<and>
   timerRef taking_saved = Some 0 \<and>
   timerRef (fst (snd (handleSubmit None submitted_ok taking_saved saved_storage))) = None \<and>
   \<not> succeeded err500 \<and>
   alert (fst (snd (handleSubmit None err500 taking_saved saved_storage)))
     = Some (danger, ''Submission failed (500)'') \<and>
   answers (fst (snd (handleSubmit None err500 taking_saved saved_storage))) = saved_answers \<and>
   snd (snd (handleSubmit None err500 taking_saved saved_storage)) = saved_storage \<and>
   timerRef (fst (snd (handleSubmit None err500 taking_saved saved_storage))) = Some 0"
proof -
  have id: "truthy_id (assignmentId taking_saved)"
    and key: "LOCAL_STORAGE_KEY (assignmentId taking_saved) = ''assignment_draft_a1''"
    and tm: "timerRef taking_saved = Some 0"
    and ans: "answers taking_saved = saved_answers"
    by (simp_all add: taking_saved_def taking_def initial_state_def LOCAL_STORAGE_KEY_def
        truthy_id_def)
  let ?d = "JObj [(''status'', JStr ''SUBMITTED''), (''attemptNumber'', JNum 1)]"
  let ?res = "\<lparr>res_ok = True, res_status = 200, res_json = Some (JObj [(''data'', ?d)])\<rparr>"
  have ok: "submitted_ok = Resolved ?res" by (simp add: submitted_ok_def)
  have ko: "\<not> succeeded err500" by (simp add: succeeded_def err500_def)
  have "toString 500 = ''500''" by code_simp
  then have msg: "failure_message err500 = ''Submission failed (500)''"
    by (simp add: failure_message_def err500_def json_or_empty_def message_of_def or_else_def)
  note inst_ok = handleSubmit_outcomes
    [OF id, where fr = submitted_ok and ls = saved_storage and d = ?d and res = ?res
       and rm = None]
  note inst_ko = handleSubmit_outcomes
    [OF id, where fr = err500 and ls = saved_storage and rm = None]
  have p1: "submitted_ok = Resolved ?res \<and> res_ok ?res \<and> json_or_empty ?res \<noteq> JNull"
    by (simp add: ok json_or_empty_def)
  have p2: "get_prop (json_or_empty ?res) ''data'' = Some ?d \<and> truthy ?d"
    by (simp add: json_or_empty_def)
  from inst_ok p1 p2
  have "result (fst (snd (handleSubmit None submitted_ok taking_saved saved_storage))) = Some ?d \<and>
    getItem (snd (snd (handleSubmit None submitted_ok taking_saved saved_storage)))
      (LOCAL_STORAGE_KEY (assignmentId taking_saved)) = None \<and>
    timerRef (fst (snd (handleSubmit None submitted_ok taking_saved saved_storage))) = None"
    by blast
  then have a: "result (fst (snd (handleSubmit None submitted_ok taking_saved saved_storage))) = Some ?d \<and>
    getItem (snd (snd (handleSubmit None submitted_ok taking_saved saved_storage)))
      ''assignment_draft_a1'' = None \<and>
    timerRef (fst (snd (handleSubmit None submitted_ok taking_saved saved_storage))) = None"
    by (simp add: key)
  from inst_ko ko
  have "alert (fst (snd (handleSubmit None err500 taking_saved saved_storage)))
     = Some (danger, failure_message err500) \<and>
   answers (fst (snd (handleSubmit None err500 taking_saved saved_storage))) = answers taking_saved \<and>
   snd (snd (handleSubmit None err500 taking_saved saved_storage)) = saved_storage \<and>
   timerRef (fst (snd (handleSubmit None err500 taking_saved saved_storage))) = timerRef taking_saved"
    by blast
  then have b: "alert (fst (snd (handleSubmit None err500 taking_saved saved_storage)))
     = Some (danger, ''Submission failed (500)'') \<and>
   answers (fst (snd (handleSubmit None err500 taking_saved saved_storage))) = saved_answers \<and>
   snd (snd (handleSubmit None err500 taking_saved saved_storage)) = saved_storage \<and>
   timerRef (fst (snd (handleSubmit None err500 taking_saved saved_storage))) = Some 0"
    by (simp add: msg ans tm)
  from id tm ko a b show ?thesis by simp
qed

lemma taking_saved_cells:
  "truthy_id (assignmentId taking_saved)"
  "LOCAL_STORAGE_KEY (assignmentId taking_saved) = ''assignment_draft_a1''"
  "timerRef taking_saved = Some 0"
  "result taking_saved = None"
  by (simp_all add: taking_saved_def taking_def initial_state_def LOCAL_STORAGE_KEY_def
      truthy_id_def)

text \<open>
  C2. The claim fails on the code at two inputs. A response with status 200 whose body is
  the JSON text \<^verbatim>\<open>null\<close> is a successful backend response, yet reading \<^verbatim>\<open>json.data\<close> throws:
  no result is stored, the draft stays in local storage, the timer keeps running and the
  alert reports a failure. And when \<^verbatim>\<open>localStorage.removeItem\<close> throws on a successful
  response with a result, the result is stored but the draft stays, the timer keeps
  running and the alert reports a failure.
\<close>

theorem handleSubmit_success_reported_as_failure:
  "succeeded null_200 \<and>
   result (fst (snd (handleSubmit None null_200 taking_saved saved_storage))) = None \<and>
   getItem (snd (snd (handleSubmit None null_200 taking_saved saved_storage)))
     ''assignment_draft_a1'' = Some (print_json (draft_json saved_answers)) \<and>
   timerRef (fst (snd (handleSubmit None null_200 taking_saved saved_storage))) = Some 0 \<and>
   alert (fst (snd (handleSubmit None null_200 taking_saved saved_storage)))
     = Some (danger, TypeError_null_data) \<and>
   succeeded submitted_ok \<and>
   result (fst (snd (handleSubmit (Some ''SecurityError'') submitted_ok taking_saved saved_storage)))
     = Some (JObj [(''status'', JStr ''SUBMITTED''), (''attemptNumber'', JNum 1)]) \<and>
   getItem (snd (snd (handleSubmit (Some ''SecurityError'') submitted_ok taking_saved saved_storage)))
     ''assignment_draft_a1'' = Some (print_json (draft_json saved_answers)) \<and>
   timerRef (fst (snd (handleSubmit (Some ''SecurityError'') submitted_ok taking_saved
     saved_storage))) = Some 0 \<and>
   alert (fst (snd (handleSubmit (Some ''SecurityError'') submitted_ok taking_saved saved_storage)))
     = Some (danger, ''SecurityError'')"
  by (simp add: taking_saved_cells succeeded_def null_200_def submitted_ok_def handleSubmit_def
      handleSubmit_try_def removeItem_def json_or_empty_def or_else_def TypeError_null_data_def
      getItem_def saved_storage_def Let_def)

section \<open>Discovering the assignment\<close>

lemma set_unique: "set (unique xs) = set xs"
  by (induction xs rule: unique.induct) auto

lemma set_enrolledCourseIds: "set (enrolledCourseIds uid es) = enrolled_courses uid es"
proof -
  have "set (map the (filter truthy_id (map (\<lambda>e. ref_id (e_courseId e))
          (filter (\<lambda>e. ref_id (e_studentId e) = Some uid) es))))
        = enrolled_courses uid es"
    by (force simp add: enrolled_courses_def truthy_id_def image_iff split: option.splits)
  then show ?thesis by (simp add: enrolledCourseIds_def Let_def set_unique)
qed

lemma find_filter_hd: "find P xs = (case filter P xs of [] \<Rightarrow> None | x # ys \<Rightarrow> Some x)"
  by (induction xs) auto

lemma matched_course_in:
  "(truthy_id (ref_id (ia_courseId a)) \<and> the (ref_id (ia_courseId a)) \<in> enrolled_courses uid es)
     = course_in (enrolled_courses uid es) a"
  by (cases "ref_id (ia_courseId a)") (auto simp add: truthy_id_def course_in_def enrolled_courses_def)

lemma discover_found:
  assumes "getItem ls ''user'' = Some dd" "dd \<noteq> []" "parse dd = Some user"
    "get_prop user ''_id'' = Some (JStr uid)" "uid \<noteq> []"
  shows "discoverAssignmentForUser parse ls (Api_data ed) (Api_data ad) True
         = map_option ia_id (find (course_in (enrolled_courses uid (list_of ed))) (list_of ad))"
proof -
  let ?ids = "enrolledCourseIds uid (list_of ed)"
  let ?matched = "filter (\<lambda>a. truthy_id (ref_id (ia_courseId a)) \<and>
                        the (ref_id (ia_courseId a)) \<in> set ?ids) (list_of ad)"
  have m: "?matched = filter (course_in (enrolled_courses uid (list_of ed))) (list_of ad)"
    by (simp add: set_enrolledCourseIds matched_course_in)
  have run: "discoverAssignmentForUser parse ls (Api_data ed) (Api_data ad) True
      = (if length ?ids = 0 then None
         else if length ?matched = 0 then None else Some (ia_id (?matched ! 0)))"
    using assms
    by (simp add: discoverAssignmentForUser_def Let_def truthy_id_def list_of_def)
  show ?thesis
  proof (cases "?ids = []")
    case True
    then have "enrolled_courses uid (list_of ed) = {}"
      using set_enrolledCourseIds [of uid "list_of ed"] by simp
    then have "filter (course_in (enrolled_courses uid (list_of ed))) (list_of ad) = []"
      by (simp add: course_in_def split: option.splits)
    with True run show ?thesis by (simp add: find_filter_hd)
  next
    case False
    with run m show ?thesis
      by (cases "filter (course_in (enrolled_courses uid (list_of ed))) (list_of ad)")
         (simp_all add: find_filter_hd)
  qed
qed

lemma discover_no_user:
  "getItem ls ''user'' = None \<Longrightarrow> discoverAssignmentForUser parse ls er ar mounted = None"
  by (simp add: discoverAssignmentForUser_def Let_def truthy_id_def)

text \<open>
  A fetch that fails, or a component torn down before the fetches answer, resolves
  nothing.
\<close>

lemma discover_unmounted_or_failed:
  "discoverAssignmentForUser parse ls Api_failed ar mounted = None"
  "discoverAssignmentForUser parse ls er Api_failed mounted = None"
  "discoverAssignmentForUser parse ls er ar False = None"
  by (auto simp add: discoverAssignmentForUser_def Let_def split: option.splits api_result.splits)

text \<open>
  C8. A component whose route carries an identifier starts with it as the assignment
  identifier, and the discovery effect leaves the state as it is. Without one, and with no
  cached user record in local storage, discovery resolves nothing. With a cached record of
  the user \<open>uid\<close>, both lists fetched and the component still mounted, the assignment
  identifier becomes that of the first element of the fetched assignment list whose course
  identifier belongs to the course identifiers of the enrollments of \<open>uid\<close>; when the list
  has no such element the state stays as it is.
\<close>

theorem discovery_resolves_first_enrolled_assignment:
  "(truthy_id routeId \<longrightarrow>
      assignmentId (initial_state routeId) = routeId \<and>
      discovery_effect parse ls er ar mounted (initial_state routeId) = initial_state routeId) \<and>
   (\<not> truthy_id routeId \<and> getItem ls ''user'' = None \<longrightarrow>
      discovery_effect parse ls er ar mounted (initial_state routeId) = initial_state routeId \<and>
      \<not> truthy_id (assignmentId (discovery_effect parse ls er ar mounted (initial_state routeId)))) \<and>
   (\<not> truthy_id routeId \<and> getItem ls ''user'' = Some dd \<and> dd \<noteq> [] \<and> parse dd = Some user \<and>
    get_prop user ''_id'' = Some (JStr uid) \<and> uid \<noteq> [] \<longrightarrow>
      (find (course_in (enrolled_courses uid (list_of ed))) (list_of ad) = Some a \<longrightarrow>
         assignmentId
           (discovery_effect parse ls (Api_data ed) (Api_data ad) True (initial_state routeId))
           = Some (ia_id a)) \<and>
      (find (course_in (enrolled_courses uid (list_of ed))) (list_of ad) = None \<longrightarrow>
         discovery_effect parse ls (Api_data ed) (Api_data ad) True (initial_state routeId)
           = initial_state routeId))"
proof -
  have route: "assignmentId (initial_state routeId) = routeId"
    by (simp add: initial_state_def)
  have skip: "discovery_effect parse ls er ar mounted (initial_state routeId) = initial_state routeId"
    if "truthy_id routeId"
    using that by (simp add: discovery_effect_def route)
  have nouser: "discovery_effect parse ls er ar mounted (initial_state routeId) = initial_state routeId"
    if "getItem ls ''user'' = None"
    using that by (simp add: discovery_effect_def discover_no_user)
  have found: "assignmentId
           (discovery_effect parse ls (Api_data ed) (Api_data ad) True (initial_state routeId))
           = Some (ia_id a)"
    if "\<not> truthy_id routeId" "getItem ls ''user'' = Some dd" "dd \<noteq> []" "parse dd = Some user"
      "get_prop user ''_id'' = Some (JStr uid)" "uid \<noteq> []"
      "find (course_in (enrolled_courses uid (list_of ed))) (list_of ad) = Some a"
    using that(1,7) discover_found [where parse = parse and dd = dd and ed = ed and ad = ad, OF that(2-6)]
    by (simp add: discovery_effect_def route)
  have missing: "discovery_effect parse ls (Api_data ed) (Api_data ad) True (initial_state routeId)
           = initial_state routeId"
    if "getItem ls ''user'' = Some dd" "dd \<noteq> []" "parse dd = Some user"
      "get_prop user ''_id'' = Some (JStr uid)" "uid \<noteq> []"
      "find (course_in (enrolled_courses uid (list_of ed))) (list_of ad) = None"
    using that(6) discover_found [where parse = parse and dd = dd and ed = ed and ad = ad, OF that(1-5)]
    by (simp add: discovery_effect_def)
  from route skip nouser found missing show ?thesis by (simp add: route)
qed

text \<open>
  The theorem at the example values: with the route identifier \<open>r1\<close>, with empty storage,
  and with the record of \<open>u1\<close> cached, where the second assignment is the first of an
  enrolled course.
\<close>

theorem discovery_resolves_first_enrolled_assignment_witness:
  "truthy_id (Some ''r1'') \<and>
   assignmentId (discovery_effect (parse_only user_u1) user_storage (Api_data (Some some_enrollments))
     (Api_data (Some some_assignments)) True (initial_state (Some ''r1''))) = Some ''r1'' \<and>
   \<not> truthy_id None \<and>
   getItem Map.empty ''user'' = None \<and>
   assignmentId (discovery_effect (parse_only user_u1) Map.empty (Api_data (Some some_enrollments))
     (Api_data (Some some_assignments)) True (initial_state None)) = None \<and>
   getItem user_storage ''user'' = Some (print_json user_u1) \<and>
   get_prop user_u1 ''_id'' = Some (JStr ''u1'') \<and>
   find (course_in (enrolled_courses ''u1'' some_enrollments)) some_assignments
     = Some \<lparr>ia_id = ''A2'', ia_courseId = Ref_obj (Some ''c2''), ia_title = ''Two''\<rparr> \<and>
   assignmentId (discovery_effect (parse_only user_u1) user_storage (Api_data (Some some_enrollments))
     (Api_data (Some some_assignments)) True (initial_state None)) = Some ''A2''"
proof -
  let ?a2 = "\<lparr>ia_id = ''A2'', ia_courseId = Ref_obj (Some ''c2''), ia_title = ''Two''\<rparr>"
  note inst = discovery_resolves_first_enrolled_assignment
    [where parse = "parse_only user_u1" and er = "Api_data (Some some_enrollments)"
       and ar = "Api_data (Some some_assignments)" and mounted = True
       and ed = "Some some_enrollments" and ad = "Some some_assignments"
       and dd = "print_json user_u1" and user = user_u1 and uid = "''u1''" and a = ?a2]
  have t1: "truthy_id (Some ''r1'')" and t0: "\<not> truthy_id None"
    by (simp_all add: truthy_id_def)
  have g0: "getItem Map.empty ''user'' = None"
    and g1: "getItem user_storage ''user'' = Some (print_json user_u1)"
    by (simp_all add: getItem_def user_storage_def)
  have ne: "print_json user_u1 \<noteq> []" by (simp add: user_u1_def)
  have p: "parse_only user_u1 (print_json user_u1) = Some user_u1" by (simp add: parse_only_def)
  have u: "get_prop user_u1 ''_id'' = Some (JStr ''u1'')" by (simp add: user_u1_def)
  have f: "find (course_in (enrolled_courses ''u1'' (list_of (Some some_enrollments))))
             (list_of (Some some_assignments)) = Some ?a2"
    by (simp add: list_of_def course_in_def enrolled_courses_def some_enrollments_def
        some_assignments_def)
  from inst [where routeId = "Some ''r1''" and ls = user_storage] t1
  have r1: "assignmentId (discovery_effect (parse_only user_u1) user_storage
      (Api_data (Some some_enrollments)) (Api_data (Some some_assignments)) True
      (initial_state (Some ''r1''))) = Some ''r1''"
    by simp
  from inst [where routeId = None and ls = Map.empty] t0 g0
  have r2: "assignmentId (discovery_effect (parse_only user_u1) Map.empty
      (Api_data (Some some_enrollments)) (Api_data (Some some_assignments)) True
      (initial_state None)) = None"
    by (simp add: initial_state_def)
  from inst [where routeId = None and ls = user_storage] t0 g1 ne p u f
  have r3: "assignmentId (discovery_effect (parse_only user_u1) user_storage
      (Api_data (Some some_enrollments)) (Api_data (Some some_assignments)) True
      (initial_state None)) = Some ''A2''"
    by simp
  from f have f': "find (course_in (enrolled_courses ''u1'' some_enrollments)) some_assignments
     = Some ?a2" by (simp add: list_of_def)
  from t1 t0 g0 g1 u f' r1 r2 r3 show ?thesis by simp
qed

end
